(* ===== verification/Prelude.thy ===== *)
theory Prelude
  imports Main "HOL-Library.AList"
begin

text \<open>
  Shared vocabulary of the development: the JavaScript values the plugin builds
  (\<open>jval\<close>, the structure \<open>JSON.stringify\<close> is later applied to), the string and array
  primitives of JavaScript that \<open>src/index.js\<close> calls (\<open>String.prototype.replace\<close>
  with a string pattern, \<open>startsWith\<close>, \<open>includes\<close>, \<open>padStart\<close>, \<open>Array.prototype.join\<close>,
  the \<open>||\<close> default of an optional description, string interpolation of a value), and
  the generic lemmas on them and on visited lists that the component theories share.
  JavaScript strings are modelled as HOL strings of UTF-8 bytes; the plugin's only
  non-ASCII literals (two CJK characters) are written out as their bytes.
\<close>

named_theorems js_simps "evaluation rules of the JavaScript primitives"
named_theorems visit_simps "facts on visited-type lists"

section \<open>JavaScript values\<close>

text \<open>
  A JavaScript value as the plugin produces it: \<open>undefined\<close> (what a function returns
  after a bare \<open>return\<close>), \<open>null\<close>, booleans, numbers (kept as their canonical decimal
  text, as \<open>String(n)\<close> and \<open>JSON.stringify\<close> print them), strings, arrays and plain
  objects (an association list in property-insertion order).
\<close>

datatype jval =
    JUndefined
  | JNull
  | JBool bool
  | JNumber string
  | JString string
  | JArray "jval list"
  | JObject "(string \<times> jval) list"

section \<open>String primitives\<close>

text \<open>\<open>s.startsWith(p)\<close>.\<close>

definition js_starts_with :: "string \<Rightarrow> string \<Rightarrow> bool" where
  "js_starts_with s p \<longleftrightarrow> take (length p) s = p"

text \<open>
  \<open>s.replace(pat, rep)\<close> with a string pattern: only the first occurrence is replaced
  (the replacement strings of the plugin are empty, so no \<open>$\<close>-pattern applies).
\<close>

fun js_replace :: "string \<Rightarrow> string \<Rightarrow> string \<Rightarrow> string" where
  "js_replace pat rep [] = (if pat = [] then rep else [])"
| "js_replace pat rep (c # cs) =
     (if js_starts_with (c # cs) pat then rep @ drop (length pat) (c # cs)
      else c # js_replace pat rep cs)"

text \<open>\<open>s.includes(p)\<close> for a string \<open>s\<close>.\<close>

fun js_includes :: "string \<Rightarrow> string \<Rightarrow> bool" where
  "js_includes [] p \<longleftrightarrow> p = []"
| "js_includes (c # cs) p \<longleftrightarrow> js_starts_with (c # cs) p \<or> js_includes cs p"

text \<open>\<open>s.padStart(n, fill)\<close> for a one-character \<open>fill\<close>.\<close>

definition js_pad_start :: "string \<Rightarrow> nat \<Rightarrow> char \<Rightarrow> string" where
  "js_pad_start s n c = replicate (n - length s) c @ s"

text \<open>
  \<open>d || dflt\<close> for an optional string \<open>d\<close> (a GraphQL description is a string,
  \<open>null\<close> or \<open>undefined\<close>): the empty string is falsy too.
\<close>

definition js_or :: "string option \<Rightarrow> string \<Rightarrow> string" where
  "js_or d dflt = (case d of None \<Rightarrow> dflt | Some s \<Rightarrow> if s = [] then dflt else s)"

text \<open>\<open>xs.join(sep)\<close> on an array of strings.\<close>

fun js_join :: "string \<Rightarrow> string list \<Rightarrow> string" where
  "js_join sep [] = []"
| "js_join sep [x] = x"
| "js_join sep (x # y # zs) = x @ sep @ js_join sep (y # zs)"

text \<open>
  \<open>String(v)\<close>, as a template literal \<open>`${v}`\<close> renders a value: arrays are joined
  with commas (\<open>null\<close> and \<open>undefined\<close> elements as empty), objects print as
  \<open>[object Object]\<close>.
\<close>

fun js_to_string :: "jval \<Rightarrow> string" where
  "js_to_string JUndefined = ''undefined''"
| "js_to_string JNull = ''null''"
| "js_to_string (JBool b) = (if b then ''true'' else ''false'')"
| "js_to_string (JNumber n) = n"
| "js_to_string (JString s) = s"
| "js_to_string (JArray vs) =
     js_join '','' (map (\<lambda>v. if v = JNull \<or> v = JUndefined then [] else js_to_string v) vs)"
| "js_to_string (JObject _) = ''[object Object]''"

text \<open>The newline character of template literals and line joins.\<close>

definition nl :: string where
  "nl = [CHR 0x0A]"

text \<open>A run of \<open>n\<close> spaces, as the plugin's template literals indent their lines.\<close>

definition spaces :: "nat \<Rightarrow> string" where
  "spaces n = replicate n (CHR '' '')"

text \<open>
  The number of type names the schema defines that are not yet on a visit path: what
  decreases along the three recursive walks.
\<close>

definition unvisited :: "('k \<times> 'v) list \<Rightarrow> 'k list \<Rightarrow> nat" where
  "unvisited T p = card (fst ` set T - set p)"

text \<open>
  \<open>obj[k] = v\<close> for each pair in turn: \<open>AList.update\<close> appends a new key and keeps the
  position of an existing one, as a plain object's property order does.
\<close>

definition js_assign :: "(string \<times> jval) list \<Rightarrow> (string \<times> jval) list \<Rightarrow> (string \<times> jval) list" where
  "js_assign kvs obj = fold (\<lambda>(k, v) al. AList.update k v al) kvs obj"

section \<open>Lemmas on the string primitives\<close>

lemma js_starts_with_Cons_single [js_simps]:
  "js_starts_with (c # cs) [d] \<longleftrightarrow> c = d"
  by (simp add: js_starts_with_def)

lemma js_starts_with_Nil_single [js_simps]:
  "\<not> js_starts_with [] [d]"
  by (simp add: js_starts_with_def)

lemma js_replace_single_Cons [js_simps]:
  "js_replace [d] r (c # cs) = (if c = d then r @ cs else c # js_replace [d] r cs)"
  by (simp add: js_simps)

lemma js_replace_single_absent [simp]:
  "d \<notin> set s \<Longrightarrow> js_replace [d] r s = s"
  by (induction s) (auto simp: js_simps)

lemma js_replace_single_append [simp]:
  "d \<notin> set xs \<Longrightarrow> js_replace [d] r (xs @ ys) = xs @ js_replace [d] r ys"
  by (induction xs) (auto simp: js_simps)

lemma js_includes_single [simp]:
  "js_includes s [d] \<longleftrightarrow> d \<in> set s"
  by (induction s) (auto simp: js_simps)

lemma js_starts_with_single:
  "js_starts_with s [d] \<longleftrightarrow> s \<noteq> [] \<and> hd s = d"
  by (cases s) (auto simp: js_simps)

lemma js_starts_with_absent [simp]:
  "d \<notin> set s \<Longrightarrow> \<not> js_starts_with s [d]"
  by (cases s) (auto simp: js_simps)

lemma js_starts_with_append_absent [simp]:
  "d \<notin> set s \<Longrightarrow> s \<noteq> [] \<Longrightarrow> \<not> js_starts_with (s @ t) [d]"
  by (cases s) (auto simp: js_simps)

lemma js_pad_start_empty [simp]:
  "js_pad_start [] n c = replicate n c"
  by (simp add: js_pad_start_def)

lemma js_or_simps [simp]:
  "js_or None d = d"
  "js_or (Some []) d = d"
  "s \<noteq> [] \<Longrightarrow> js_or (Some s) d = s"
  by (simp_all add: js_or_def)

lemma js_join_empty_iff [simp]:
  "js_join sep xs = [] \<longleftrightarrow> (\<forall>x \<in> set xs. x = []) \<and> (sep = [] \<or> length xs \<le> 1)"
  by (induction sep xs rule: js_join.induct) auto

section \<open>Visited lists\<close>

text \<open>
  The three recursive walks of the plugin stop at a type already on the current path
  and otherwise descend only into types the schema defines. What decreases is the number
  of defined type names not yet on the path.
\<close>

lemma unvisited_snoc_less [visit_simps]:
  assumes "map_of T x = Some v" and "x \<notin> set p"
  shows "unvisited T (p @ [x]) < unvisited T p"
proof -
  have x: "x \<in> fst ` set T" using assms(1) by (metis domI dom_map_of_conv_image_fst)
  have "fst ` set T - set (p @ [x]) \<subset> fst ` set T - set p"
    using x assms(2) by auto
  then show ?thesis unfolding unvisited_def by (simp add: psubset_card_mono)
qed

lemma unvisited_snoc_le [visit_simps]:
  "unvisited T (p @ [x]) \<le> unvisited T p"
  unfolding unvisited_def by (rule card_mono) auto

lemma unvisited_set_eq [visit_simps]:
  "set p = set q \<Longrightarrow> unvisited T p = unvisited T q"
  by (simp add: unvisited_def)

lemma unvisited_le_length [visit_simps]:
  "unvisited T p \<le> length T"
proof -
  have "card (fst ` set T - set p) \<le> card (fst ` set T)" by (rule card_mono) auto
  also have "\<dots> \<le> card (set T)" by (rule card_image_le) simp
  also have "\<dots> \<le> length T" by (rule card_length)
  finally show ?thesis by (simp add: unvisited_def)
qed

section \<open>Association lists as JavaScript objects\<close>

text \<open>
  \<open>obj[k] = v\<close> on a plain object is \<open>AList.update\<close>: a new key is appended, an existing
  key keeps its position. Assigning distinct fresh keys in turn appends them in order.
\<close>

lemma fold_update_fresh [simp]:
  assumes "distinct ks" and "set ks \<inter> fst ` set acc = {}" and "length vs = length ks"
  shows "fold (\<lambda>(k, v) al. AList.update k v al) (zip ks vs) acc = acc @ zip ks vs"
  using assms
proof (induction ks arbitrary: vs acc)
  case Nil
  then show ?case by simp
next
  case (Cons k ks)
  then obtain v vs' where vs: "vs = v # vs'" by (cases vs) auto
  have fresh: "k \<notin> fst ` set acc" using Cons.prems(2) by auto
  then have upd: "AList.update k v acc = acc @ [(k, v)]"
    by (induction acc) auto
  have "fold (\<lambda>(k, v) al. AList.update k v al) (zip ks vs') (acc @ [(k, v)])
        = (acc @ [(k, v)]) @ zip ks vs'"
    using Cons.prems vs by (intro Cons.IH) auto
  then show ?case using vs upd by simp
qed

lemma js_assign_subset:
  "set (js_assign kvs acc) \<subseteq> set acc \<union> set kvs"
proof -
  have upd: "set (AList.update k v al) \<subseteq> insert (k, v) (set al)" for k v and al :: "(string \<times> jval) list"
    by (induction al) auto
  show ?thesis
    unfolding js_assign_def
  proof (induction kvs arbitrary: acc)
    case (Cons kv kvs)
    obtain k v where kv: "kv = (k, v)" by fastforce
    have "set (fold (\<lambda>(k, v) al. AList.update k v al) kvs (AList.update k v acc))
            \<subseteq> set (AList.update k v acc) \<union> set kvs" by (rule Cons.IH)
    with upd[of k v acc] kv show ?case by auto
  qed simp
qed

lemma js_assign_fresh:
  "distinct ks \<Longrightarrow> length vs = length ks \<Longrightarrow> js_assign (zip ks vs) [] = zip ks vs"
  unfolding js_assign_def by (simp add: fold_update_fresh)

lemma map_of_zip_map:
  assumes "distinct (map k xs)" and "x \<in> set xs" and "map Some vs = map h xs"
  shows "\<exists>u. map_of (zip (map k xs) vs) (k x) = Some u \<and> h x = Some u"
  using assms
proof (induction xs arbitrary: vs)
  case (Cons y ys)
  then obtain w ws where vs: "vs = w # ws" and w: "h y = Some w" and ws: "map Some ws = map h ys"
    by (cases vs) auto
  show ?case
  proof (cases "x = y")
    case True
    with vs w show ?thesis by simp
  next
    case False
    with Cons.prems(2) have x: "x \<in> set ys" by simp
    have "k y \<notin> k ` set ys" using Cons.prems(1) by simp
    with x have "k x \<noteq> k y" by (metis imageI)
    with Cons.IH[OF _ x ws] Cons.prems(1) vs show ?thesis by simp
  qed
qed simp

end
