(* ===== verification/Schema.thy ===== *)
theory Schema
  imports Prelude
begin

text \<open>
  The read-only schema the plugin is handed by graphql-codegen: GraphQL type references
  (\<open>field.type\<close>, printed by \<open>toString()\<close>), fields and arguments (\<open>name\<close>, \<open>type\<close>,
  \<open>description\<close>), enum values (\<open>value\<close>, \<open>name\<close>, \<open>description\<close>), the named type
  definitions of \<open>schema.getTypeMap()\<close> as the plugin probes them (\<open>_values\<close> for an enum,
  \<open>_fields\<close> for object, interface and input types, neither for scalars and unions), and
  the root query fields with their \<open>args\<close>. None of this is code of the repository: it is
  the graphql-js interface, modelled from the spec and from graphql-js's printing rules.
\<close>

section \<open>Type references\<close>

datatype gql_type =
    Named string
  | ListOf gql_type
  | NonNull gql_type

text \<open>\<open>GraphQLList.toString()\<close> is \<open>[T]\<close>, \<open>GraphQLNonNull.toString()\<close> is \<open>T!\<close>.\<close>

primrec type_to_string :: "gql_type \<Rightarrow> string" where
  "type_to_string (Named n) = n"
| "type_to_string (ListOf t) = ''['' @ type_to_string t @ '']''"
| "type_to_string (NonNull t) = type_to_string t @ ''!''"

text \<open>The named type at the bottom of a reference, and how many list wrappers it has.\<close>

primrec gql_base :: "gql_type \<Rightarrow> string" where
  "gql_base (Named n) = n"
| "gql_base (ListOf t) = gql_base t"
| "gql_base (NonNull t) = gql_base t"

primrec list_depth :: "gql_type \<Rightarrow> nat" where
  "list_depth (Named n) = 0"
| "list_depth (ListOf t) = Suc (list_depth t)"
| "list_depth (NonNull t) = list_depth t"

text \<open>The reference denotes a list (possibly non-null) and is non-null at the top.\<close>

fun gql_is_list :: "gql_type \<Rightarrow> bool" where
  "gql_is_list (ListOf _) = True"
| "gql_is_list (NonNull t) = gql_is_list t"
| "gql_is_list (Named _) = False"

fun gql_non_null :: "gql_type \<Rightarrow> bool" where
  "gql_non_null (NonNull _) = True"
| "gql_non_null _ = False"

text \<open>graphql-js refuses a non-null wrapper directly around another one.\<close>

fun wf_gql_type :: "gql_type \<Rightarrow> bool" where
  "wf_gql_type (Named n) = True"
| "wf_gql_type (ListOf t) = wf_gql_type t"
| "wf_gql_type (NonNull t) = (\<not> gql_non_null t \<and> wf_gql_type t)"

text \<open>GraphQL names: \<open>/[_A-Za-z][_0-9A-Za-z]*/\<close>.\<close>

definition name_start_char :: "char \<Rightarrow> bool" where
  "name_start_char c \<longleftrightarrow>
     (let k = of_char c :: nat in k = 95 \<or> (65 \<le> k \<and> k \<le> 90) \<or> (97 \<le> k \<and> k \<le> 122))"

definition name_char :: "char \<Rightarrow> bool" where
  "name_char c \<longleftrightarrow> name_start_char c \<or> (let k = of_char c :: nat in 48 \<le> k \<and> k \<le> 57)"

definition gql_name_ok :: "string \<Rightarrow> bool" where
  "gql_name_ok n \<longleftrightarrow> n \<noteq> [] \<and> name_start_char (hd n) \<and> list_all name_char n"

section \<open>Fields, enum values, type definitions\<close>

record gql_field =
  fname :: string
  ftype :: gql_type
  fdescription :: "string option"

record enum_value =
  ev_value :: jval
  ev_name :: string
  ev_description :: "string option"

text \<open>
  What the plugin sees of a named type: \<open>_values\<close> (an enum), \<open>_fields\<close> (objects,
  interfaces, input objects; in declaration order), or neither (custom scalars, unions).
\<close>

datatype type_def =
    EnumDef "enum_value list"
  | FieldsDef "gql_field list"
  | OtherDef

text \<open>\<open>schema.getTypeMap()\<close>: looked up by \<open>types[name]\<close>, i.e. \<open>map_of\<close>.\<close>

type_synonym type_map = "(string \<times> type_def) list"

text \<open>A root query field: the field itself and its arguments.\<close>

record gql_query =
  qfield :: gql_field
  qargs :: "gql_field list"

type_synonym query_map = "(string \<times> gql_query) list"

section \<open>Well-formed schemas\<close>

text \<open>
  The schema invariants graphql-js's validation guarantees and the plugin relies on:
  every enum has a value, and every name is a GraphQL name.
\<close>

definition enums_nonempty :: "type_map \<Rightarrow> bool" where
  "enums_nonempty T \<longleftrightarrow> (\<forall>(n, d) \<in> set T. d \<noteq> EnumDef [])"

lemma enums_nonempty_lookup [simp]:
  "enums_nonempty T \<Longrightarrow> map_of T n \<noteq> Some (EnumDef [])"
  unfolding enums_nonempty_def by (auto dest: map_of_SomeD)

section \<open>Lemmas on printed type references\<close>

lemma set_type_to_string [simp]:
  "set (type_to_string t) \<subseteq> set (gql_base t) \<union> {CHR ''['', CHR '']'', CHR ''!''}"
  by (induction t) auto

lemma gql_name_ok_no_markers [simp]:
  assumes "gql_name_ok n"
  shows "CHR ''!'' \<notin> set n" "CHR ''['' \<notin> set n" "CHR '']'' \<notin> set n"
  using assms unfolding gql_name_ok_def list_all_iff name_char_def name_start_char_def
  by auto

lemma one_in_type_to_string [simp]:
  "CHR ''1'' \<in> set (type_to_string t) \<longleftrightarrow> CHR ''1'' \<in> set (gql_base t)"
  by (induction t) auto

end
