(* ===== verification/TypeExpr.thy ===== *)
theory TypeExpr
  imports Schema
begin

text \<open>
  The type-expression resolver. \<open>src/index.js\<close> does not have it as a function: each of
  the three walkers inlines the same string surgery on \<open>field.type.toString()\<close>
  (\<open>addSubFields\<close> lines 15--19, \<open>buildMockJson\<close> lines 55--58,
  \<open>buildResponseSchema\<close> lines 93--95): remove the first \<open>!\<close>, note whether what is
  left starts with \<open>[\<close>, remove the first \<open>[\<close> and the first \<open>]\<close>. \<open>addSubFields\<close>
  also computes a "required" flag (line 16). The lemmas say what the resolver returns for
  every reference with at most one list level, where it goes wrong (a non-null list of
  non-null elements, the required flag), and that the inlined copies agree.
\<close>

section \<open>Definitions\<close>

text \<open>The names \<open>addSubFields\<close> and \<open>buildResponseSchema\<close> treat as leaves (lines 32, 103).\<close>

definition builtin_scalars :: "string list" where
  "builtin_scalars = [''String'', ''Int'', ''Boolean'', ''Float'', ''Long'']"

text \<open>\<open>const required = typeString.includes('1')\<close> (line 16).\<close>

definition required_flag :: "string \<Rightarrow> bool" where
  "required_flag s \<longleftrightarrow> js_includes s ''1''"

text \<open>Lines 56--58: the base type name and the list flag.\<close>

definition parse_type :: "string \<Rightarrow> string \<times> bool" where
  "parse_type s =
     (let t = js_replace ''!'' [] s
      in (js_replace '']'' [] (js_replace ''['' [] t), js_starts_with t ''[''))"

text \<open>Lines 94--95: the same surgery without the list flag.\<close>

definition base_type :: "string \<Rightarrow> string" where
  "base_type s = js_replace '']'' [] (js_replace ''['' [] (js_replace ''!'' [] s))"

text \<open>The resolver applied to a field's declared type.\<close>

definition field_base :: "gql_field \<Rightarrow> string" where
  "field_base f = fst (parse_type (type_to_string (ftype f)))"

definition field_is_list :: "gql_field \<Rightarrow> bool" where
  "field_is_list f = snd (parse_type (type_to_string (ftype f)))"

section \<open>Shapes of references with one list level\<close>

lemma single_level_shapes:
  assumes "wf_gql_type t" and "list_depth t \<le> 1"
  obtains n where "t = Named n" | n where "t = NonNull (Named n)"
    | n where "t = ListOf (Named n)" | n where "t = ListOf (NonNull (Named n))"
    | n where "t = NonNull (ListOf (Named n))"
    | n where "t = NonNull (ListOf (NonNull (Named n)))"
  using assms
proof (cases t)
  case (ListOf u)
  with assms that show ?thesis
    by (cases u; simp) (rename_tac v, case_tac v; simp)
next
  case (NonNull u)
  with assms that show ?thesis
  proof (cases u)
    case (ListOf v)
    with NonNull assms that show ?thesis
      by (cases v; simp) (rename_tac w, case_tac w; simp)
  qed simp_all
qed simp

lemmas parse_unfold = parse_type_def base_type_def Let_def js_simps

section \<open>What the resolver returns\<close>

text \<open>
  The inlined copy of \<open>buildResponseSchema\<close> computes the same base name as that of
  \<open>buildMockJson\<close> and \<open>addSubFields\<close>, on every string.
\<close>

lemma base_type_parse_type:
  "base_type s = fst (parse_type s)"
  by (simp add: parse_unfold)

text \<open>
  C11. For every well-formed reference with at most one list level, other than a non-null
  list of non-null elements, the resolver recovers the printed name and the list flag.
\<close>

theorem parse_type_one_level:
  assumes "gql_name_ok (gql_base t)" and "wf_gql_type t" and "list_depth t \<le> 1"
    and "\<forall>u. t \<noteq> NonNull (ListOf (NonNull u))"
  shows "parse_type (type_to_string t) = (gql_base t, gql_is_list t)"
  using assms(2,3)
  by (cases rule: single_level_shapes) (use assms(1,4) in \<open>simp_all add: parse_unfold\<close>)

text \<open>
  C12. For a non-null list of non-null elements (\<open>[T!]!\<close>) only the first \<open>!\<close> is
  removed: the base name keeps a trailing \<open>!\<close>, so no lookup or scalar test matches it.
\<close>

theorem parse_type_non_null_list_non_null:
  assumes "gql_name_ok n"
  shows "parse_type (type_to_string (NonNull (ListOf (NonNull (Named n))))) = (n @ ''!'', True)"
  using assms by (simp add: parse_unfold)

lemma required_flag_ignores_non_null:
  "required_flag (type_to_string t) \<longleftrightarrow> CHR ''1'' \<in> set (gql_base t)"
  by (simp add: required_flag_def)

end
