(* ===== verification/FieldTable.thy ===== *)
theory FieldTable
  imports TypeExpr
begin

text \<open>
  The field-table renderer, \<open>addSubFields(deep, field, path)\<close> of \<open>src/index.js\<close>
  (lines 14--51). Each call pushes one Markdown table row for the field onto the shared
  \<open>lines\<close> array, then, unless the field's base type is already on \<open>path\<close>, a builtin
  scalar or unknown, either a second row whose description lists the enum values, or the
  rows of every field of the object type, one level deeper, each with its own copy of
  \<open>path\<close>. A row is kept here as a record of the values the template literal
  interpolates (\<open>table_row\<close>), printed by \<open>render_row\<close>; \<open>add_sub_rows\<close> returns the
  rows a call pushes, in push order, and \<open>add_sub_fields\<close> is the call's effect on
  \<open>lines\<close>.
\<close>

section \<open>Rows\<close>

text \<open>The two CJK words of the "required" column (UTF-8 bytes) and the backslash.\<close>

definition txt_yes :: string where
  "txt_yes = [CHR 0xE6, CHR 0x98, CHR 0xAF]"

definition txt_no :: string where
  "txt_no = [CHR 0xE5, CHR 0x90, CHR 0xA6]"

definition bslash :: string where
  "bslash = [CHR 0x5C]"

record table_row =
  r_depth :: nat
  r_name :: string
  r_type :: string
  r_array :: bool
  r_required :: bool
  r_desc :: string

text \<open>The template literals of lines 21/23 (and 38/40).\<close>

definition render_row :: "table_row \<Rightarrow> string" where
  "render_row r =
     (if r_array r
      then ''|'' @ js_pad_start [] (r_depth r) (CHR ''-'') @ r_name r @ ''|Array'' @ bslash
           @ ''<'' @ r_type r @ bslash @ ''>|'' @ txt_no @ ''|'' @ r_desc r @ ''|''
      else ''|'' @ js_pad_start [] (r_depth r) (CHR ''-'') @ r_name r @ ''|'' @ r_type r
           @ ''|'' @ (if r_required r then txt_yes else txt_no) @ ''|'' @ r_desc r @ ''|'')"

text \<open>Line 36: \<open>`${e.value}: ${e.name} ${e.description || ''}`\<close>, joined by \<open>;\<close>.\<close>

definition enum_desc :: "enum_value list \<Rightarrow> string" where
  "enum_desc vs =
     js_join '';'' (map (\<lambda>e. js_to_string (ev_value e) @ '': '' @ ev_name e @ '' ''
                             @ js_or (ev_description e) []) vs)"

text \<open>Lines 15--24: the row every call pushes first.\<close>

definition field_row :: "nat \<Rightarrow> gql_field \<Rightarrow> table_row" where
  "field_row deep f =
     (let ts = type_to_string (ftype f)
      in \<lparr>r_depth = deep, r_name = fname f, r_type = fst (parse_type ts),
          r_array = snd (parse_type ts), r_required = required_flag ts,
          r_desc = js_or (fdescription f) []\<rparr>)"

section \<open>The walk\<close>

function add_sub_rows :: "type_map \<Rightarrow> nat \<Rightarrow> gql_field \<Rightarrow> string list \<Rightarrow> table_row list" where
  "add_sub_rows T deep f path =
     (let row = field_row deep f; ty = r_type row
      in row # (if ty \<in> set path then []
                else if ty \<in> set builtin_scalars then []
                else (case map_of T ty of
                        None \<Rightarrow> []
                      | Some (EnumDef vs) \<Rightarrow> [row\<lparr>r_desc := r_desc row @ enum_desc vs\<rparr>]
                      | Some (FieldsDef fs) \<Rightarrow>
                          concat (map (\<lambda>g. add_sub_rows T (Suc deep) g (path @ [ty])) fs)
                      | Some OtherDef \<Rightarrow> [])))"
  by pat_completeness auto
termination
  by (relation "measure (\<lambda>(T, deep, f, path). unvisited T path)")
     (auto simp: Let_def intro: unvisited_snoc_less)

text \<open>The call's effect on the shared \<open>lines\<close> array.\<close>

definition add_sub_fields ::
  "type_map \<Rightarrow> nat \<Rightarrow> gql_field \<Rightarrow> string list \<Rightarrow> string list \<Rightarrow> string list" where
  "add_sub_fields T deep f path lines = lines @ map render_row (add_sub_rows T deep f path)"

section \<open>One equation per branch\<close>

lemma field_row_simps [simp]:
  "r_type (field_row d f) = field_base f"
  "r_depth (field_row d f) = d"
  "r_name (field_row d f) = fname f"
  "r_array (field_row d f) = field_is_list f"
  "r_required (field_row d f) = required_flag (type_to_string (ftype f))"
  "r_desc (field_row d f) = js_or (fdescription f) []"
  by (simp_all add: field_row_def field_base_def field_is_list_def Let_def)

declare add_sub_rows.simps [simp del]

lemma add_sub_rows_visited:
  "field_base f \<in> set p \<Longrightarrow> add_sub_rows T d f p = [field_row d f]"
  by (simp add: add_sub_rows.simps Let_def)

lemma add_sub_rows_builtin:
  "field_base f \<in> set builtin_scalars \<Longrightarrow> add_sub_rows T d f p = [field_row d f]"
  by (simp add: add_sub_rows.simps Let_def)

lemma add_sub_rows_unknown:
  "map_of T (field_base f) = None \<Longrightarrow> add_sub_rows T d f p = [field_row d f]"
  by (simp add: add_sub_rows.simps Let_def)

lemma add_sub_rows_other:
  "map_of T (field_base f) = Some OtherDef \<Longrightarrow> add_sub_rows T d f p = [field_row d f]"
  by (simp add: add_sub_rows.simps Let_def)

lemma add_sub_rows_enum:
  "field_base f \<notin> set p \<Longrightarrow> field_base f \<notin> set builtin_scalars \<Longrightarrow>
   map_of T (field_base f) = Some (EnumDef vs) \<Longrightarrow>
   add_sub_rows T d f p =
     [field_row d f, (field_row d f)\<lparr>r_desc := r_desc (field_row d f) @ enum_desc vs\<rparr>]"
  by (simp add: add_sub_rows.simps Let_def)

lemma add_sub_rows_fields:
  "field_base f \<notin> set p \<Longrightarrow> field_base f \<notin> set builtin_scalars \<Longrightarrow>
   map_of T (field_base f) = Some (FieldsDef fs) \<Longrightarrow>
   add_sub_rows T d f p =
     field_row d f # concat (map (\<lambda>g. add_sub_rows T (Suc d) g (p @ [field_base f])) fs)"
  by (simp add: add_sub_rows.simps Let_def)

lemmas add_sub_rows_branches =
  add_sub_rows_visited add_sub_rows_builtin add_sub_rows_unknown add_sub_rows_other
  add_sub_rows_enum add_sub_rows_fields

section \<open>Induction and case analysis\<close>

text \<open>
  Induction along the walk, with the hypothesis for each field of a visited object type,
  and the three shapes a call's rows can take.
\<close>

lemma add_sub_rows_induct [case_names step]:
  assumes "\<And>T d f p. (\<And>fs g. field_base f \<notin> set p \<Longrightarrow> field_base f \<notin> set builtin_scalars \<Longrightarrow>
              map_of T (field_base f) = Some (FieldsDef fs) \<Longrightarrow> g \<in> set fs \<Longrightarrow>
              P T (Suc d) g (p @ [field_base f])) \<Longrightarrow> P T d f p"
  shows "P T d f p"
proof (induction T d f p rule: add_sub_rows.induct)
  case (1 T d f p)
  note IH = "1.IH"[OF refl refl, unfolded field_row_simps]
  show ?case
  proof (rule assms)
    fix fs g
    assume "field_base f \<notin> set p" "field_base f \<notin> set builtin_scalars"
      "map_of T (field_base f) = Some (FieldsDef fs)" "g \<in> set fs"
    then show "P T (Suc d) g (p @ [field_base f])" by (rule IH[OF _ _ _ refl])
  qed
qed

lemma add_sub_rows_cases:
  obtains (leaf) "field_base f \<in> set p \<or> field_base f \<in> set builtin_scalars \<or>
      map_of T (field_base f) = None \<or> map_of T (field_base f) = Some OtherDef"
    "add_sub_rows T d f p = [field_row d f]"
  | (enum) vs where "field_base f \<notin> set p" "field_base f \<notin> set builtin_scalars"
      "map_of T (field_base f) = Some (EnumDef vs)"
      "add_sub_rows T d f p =
         [field_row d f, (field_row d f)\<lparr>r_desc := r_desc (field_row d f) @ enum_desc vs\<rparr>]"
  | (fields) fs where "field_base f \<notin> set p" "field_base f \<notin> set builtin_scalars"
      "map_of T (field_base f) = Some (FieldsDef fs)"
      "add_sub_rows T d f p =
         field_row d f # concat (map (\<lambda>g. add_sub_rows T (Suc d) g (p @ [field_base f])) fs)"
proof (cases "field_base f \<in> set p \<or> field_base f \<in> set builtin_scalars")
  case True
  then have "add_sub_rows T d f p = [field_row d f]"
    by (auto simp: add_sub_rows_visited add_sub_rows_builtin)
  with True show ?thesis by (intro leaf) auto
next
  case False
  show ?thesis
  proof (cases "map_of T (field_base f)")
    case None
    then show ?thesis by (intro leaf) (simp_all add: add_sub_rows_unknown)
  next
    case (Some def)
    show ?thesis
    proof (cases def)
      case (EnumDef vs)
      with False Some have g: "field_base f \<notin> set p" "field_base f \<notin> set builtin_scalars"
          "map_of T (field_base f) = Some (EnumDef vs)" by auto
      from g add_sub_rows_enum[OF g] show ?thesis by (rule enum)
    next
      case (FieldsDef fs)
      with False Some have g: "field_base f \<notin> set p" "field_base f \<notin> set builtin_scalars"
          "map_of T (field_base f) = Some (FieldsDef fs)" by auto
      from g add_sub_rows_fields[OF g] show ?thesis by (rule fields)
    next
      case OtherDef
      with Some show ?thesis by (intro leaf) (simp_all add: add_sub_rows_other)
    qed
  qed
qed

text \<open>A row of the walk is the field's own row, its enum row, or a row of a child's walk.\<close>

lemma add_sub_rows_member:
  assumes "r \<in> set (add_sub_rows T d f p)"
  obtains (own) "r = field_row d f"
  | (enum) vs where "field_base f \<notin> set p" "field_base f \<notin> set builtin_scalars"
      "map_of T (field_base f) = Some (EnumDef vs)"
      "r = (field_row d f)\<lparr>r_desc := r_desc (field_row d f) @ enum_desc vs\<rparr>"
  | (child) fs g where "field_base f \<notin> set p" "field_base f \<notin> set builtin_scalars"
      "map_of T (field_base f) = Some (FieldsDef fs)" "g \<in> set fs"
      "r \<in> set (add_sub_rows T (Suc d) g (p @ [field_base f]))"
proof (cases rule: add_sub_rows_cases[where T = T and d = d and f = f and p = p])
  case leaf
  with assms show ?thesis by (intro own) simp
next
  case (enum vs)
  from assms have "r = field_row d f \<or> r = (field_row d f)\<lparr>r_desc := r_desc (field_row d f) @ enum_desc vs\<rparr>"
    unfolding enum(4) by simp
  with enum(1-3) show ?thesis using that(1,2) by blast
next
  case (fields fs)
  from assms have "r = field_row d f \<or> (\<exists>g \<in> set fs. r \<in> set (add_sub_rows T (Suc d) g (p @ [field_base f])))"
    unfolding fields(4) by simp
  with fields(1-3) show ?thesis using that(1,3) by blast
qed

section \<open>Properties\<close>

text \<open>
  The cycle guard: a field whose base type is already on the path contributes its
  own row and nothing else; the walk does not descend.
\<close>

theorem add_sub_fields_visited:
  assumes "field_base f \<in> set p"
  shows "add_sub_fields T d f p lines = lines @ [render_row (field_row d f)]"
  using assms by (simp add: add_sub_fields_def add_sub_rows_visited)

text \<open>
  C2. Every row the walk pushes is indented at least \<open>deep\<close> and at most \<open>deep\<close> plus the
  number of defined type names not yet on the path: the recursion is bounded by the schema.
\<close>

theorem add_sub_rows_depth_bound:
  "r \<in> set (add_sub_rows T d f p) \<Longrightarrow> d \<le> r_depth r \<and> r_depth r \<le> d + unvisited T p"
proof (induction T d f p arbitrary: r rule: add_sub_rows_induct)
  case (step T d f p)
  show ?case
  proof (cases rule: add_sub_rows_cases[where T = T and d = d and f = f and p = p])
    case leaf
    from step.prems have "r = field_row d f" unfolding leaf(2) by simp
    then show ?thesis by simp
  next
    case (enum vs)
    with step.prems show ?thesis by auto
  next
    case (fields fs)
    show ?thesis
    proof (cases "r = field_row d f")
      case False
      with step.prems fields(4) obtain g where g: "g \<in> set fs"
        and r: "r \<in> set (add_sub_rows T (Suc d) g (p @ [field_base f]))"
        by auto
      have "unvisited T (p @ [field_base f]) < unvisited T p"
        using fields(3,1) by (rule unvisited_snoc_less)
      with step.IH[OF fields(1-3) g r] show ?thesis by linarith
    next
      case True
      then show ?thesis by simp
    qed
  qed
qed

text \<open>
  C10. An enum-typed field, not on the path, pushes two rows: its own, then the same row with
  the enum values appended to the description (line 38/40). The values are not child rows.
\<close>

theorem add_sub_fields_enum:
  assumes "field_base f \<notin> set p" and "field_base f \<notin> set builtin_scalars"
    and "map_of T (field_base f) = Some (EnumDef vs)"
  shows "add_sub_fields T d f p lines =
           lines @ [render_row (field_row d f),
                    render_row ((field_row d f)\<lparr>r_desc := r_desc (field_row d f) @ enum_desc vs\<rparr>)]"
  using assms by (simp add: add_sub_fields_def add_sub_rows_enum)

text \<open>
  C13. The "required" column of a non-list field reads the flag of line 16, which tests for the
  character \<open>1\<close>, not for the non-null marker \<open>!\<close>: every non-list field whose type
  name has no \<open>1\<close> is rendered as not required, non-null or not.
\<close>

theorem render_field_row_not_required:
  assumes "CHR ''1'' \<notin> set (gql_base (ftype f))" and "\<not> field_is_list f"
  shows "render_row (field_row d f) =
           ''|'' @ replicate d (CHR ''-'') @ fname f @ ''|'' @ field_base f @ ''|'' @ txt_no
           @ ''|'' @ js_or (fdescription f) [] @ ''|''"
  using assms by (simp add: render_row_def required_flag_ignores_non_null)

end
