(* ===== verification/MockJson.thy ===== *)
theory MockJson
  imports TypeExpr
begin

text \<open>
  The example-value synthesizer, \<open>buildMockJson(field, path)\<close> of \<open>src/index.js\<close>
  (lines 54--90). It resolves the field's type, returns \<open>undefined\<close> when the base type is
  already on \<open>path\<close> (before any list wrapping), a fixed stand-in for the builtin scalars,
  the first value of an enum, and for any other name an object built by assigning each
  field of the type definition its own example (an unknown name or a type without
  \<open>_fields\<close> gives \<open>{}\<close>); every result but \<open>undefined\<close> is wrapped in a one-element
  array when the field is a list. \<open>define._values[0].value\<close> on an enum without values
  throws a TypeError, which propagates out of every enclosing call: the result type is
  \<open>jval option\<close>, \<open>None\<close> being that exception.
\<close>

section \<open>Definitions\<close>

definition wrap_list :: "bool \<Rightarrow> jval \<Rightarrow> jval" where
  "wrap_list isList v = (if isList then JArray [v] else v)"

text \<open>Lines 66--73: the stand-ins for the builtin scalars.\<close>

definition scalar_example :: "string \<Rightarrow> string option \<Rightarrow> jval option" where
  "scalar_example ty desc =
     (if ty = ''String'' then Some (JString (js_or desc ''String''))
      else if ty = ''Boolean'' then Some (JBool False)
      else if ty = ''Int'' \<or> ty = ''Long'' then Some (JNumber ''1'')
      else if ty = ''Float'' then Some (JNumber ''1.1'')
      else None)"

function build_mock_json :: "type_map \<Rightarrow> gql_field \<Rightarrow> string list \<Rightarrow> jval option" where
  "build_mock_json T f path =
     (let ty = field_base f; isList = field_is_list f
      in if ty \<in> set path then Some JUndefined
         else (case scalar_example ty (fdescription f) of
                 Some v \<Rightarrow> Some (wrap_list isList v)
               | None \<Rightarrow>
                   (case map_of T ty of
                      None \<Rightarrow> Some (wrap_list isList (JObject []))
                    | Some (EnumDef vs) \<Rightarrow>
                        (case vs of
                           [] \<Rightarrow> None
                         | v # _ \<Rightarrow> Some (wrap_list isList (ev_value v)))
                    | Some (FieldsDef fs) \<Rightarrow>
                        (case those (map (\<lambda>g. build_mock_json T g (path @ [ty])) fs) of
                           None \<Rightarrow> None
                         | Some vs \<Rightarrow>
                             Some (wrap_list isList (JObject (js_assign (zip (map fname fs) vs) []))))
                    | Some OtherDef \<Rightarrow> Some (wrap_list isList (JObject [])))))"
  by pat_completeness auto
termination
  by (relation "measure (\<lambda>(T, f, path). unvisited T path)")
     (auto simp: Let_def intro: unvisited_snoc_less)

section \<open>One equation per branch\<close>

declare build_mock_json.simps [simp del]

text \<open>
  The cycle guard: a field whose base type is already on the path yields \<open>undefined\<close>, before any list
  wrapping: a list field that cycles back gives \<open>undefined\<close>, not an array.
\<close>

lemma build_mock_json_visited:
  "field_base f \<in> set p \<Longrightarrow> build_mock_json T f p = Some JUndefined"
  by (simp add: build_mock_json.simps Let_def)

lemma mock_scalar:
  "field_base f \<notin> set p \<Longrightarrow> scalar_example (field_base f) (fdescription f) = Some v \<Longrightarrow>
   build_mock_json T f p = Some (wrap_list (field_is_list f) v)"
  by (simp add: build_mock_json.simps Let_def)

lemma mock_unknown:
  "field_base f \<notin> set p \<Longrightarrow> scalar_example (field_base f) (fdescription f) = None \<Longrightarrow>
   map_of T (field_base f) = None \<Longrightarrow>
   build_mock_json T f p = Some (wrap_list (field_is_list f) (JObject []))"
  by (simp add: build_mock_json.simps Let_def)

lemma mock_other:
  "field_base f \<notin> set p \<Longrightarrow> scalar_example (field_base f) (fdescription f) = None \<Longrightarrow>
   map_of T (field_base f) = Some OtherDef \<Longrightarrow>
   build_mock_json T f p = Some (wrap_list (field_is_list f) (JObject []))"
  by (simp add: build_mock_json.simps Let_def)

lemma mock_enum:
  "field_base f \<notin> set p \<Longrightarrow> scalar_example (field_base f) (fdescription f) = None \<Longrightarrow>
   map_of T (field_base f) = Some (EnumDef (v # vs)) \<Longrightarrow>
   build_mock_json T f p = Some (wrap_list (field_is_list f) (ev_value v))"
  by (simp add: build_mock_json.simps Let_def)

text \<open>
  An enum-typed field whose enum has no values throws (\<open>_values[0]\<close> is undefined).
\<close>

lemma build_mock_json_empty_enum:
  "field_base f \<notin> set p \<Longrightarrow> scalar_example (field_base f) (fdescription f) = None \<Longrightarrow>
   map_of T (field_base f) = Some (EnumDef []) \<Longrightarrow> build_mock_json T f p = None"
  by (simp add: build_mock_json.simps Let_def)

lemma mock_fields:
  "field_base f \<notin> set p \<Longrightarrow> scalar_example (field_base f) (fdescription f) = None \<Longrightarrow>
   map_of T (field_base f) = Some (FieldsDef fs) \<Longrightarrow>
   build_mock_json T f p =
     (case those (map (\<lambda>g. build_mock_json T g (p @ [field_base f])) fs) of
        None \<Rightarrow> None
      | Some vs \<Rightarrow>
          Some (wrap_list (field_is_list f) (JObject (js_assign (zip (map fname fs) vs) []))))"
  by (simp add: build_mock_json.simps Let_def)

section \<open>Induction\<close>

lemma build_mock_json_induct [case_names step]:
  assumes "\<And>T f p. (\<And>fs g. field_base f \<notin> set p \<Longrightarrow>
              scalar_example (field_base f) (fdescription f) = None \<Longrightarrow>
              map_of T (field_base f) = Some (FieldsDef fs) \<Longrightarrow> g \<in> set fs \<Longrightarrow>
              P T g (p @ [field_base f])) \<Longrightarrow> P T f p"
  shows "P T f p"
proof (induction T f p rule: build_mock_json.induct)
  case (1 T f p)
  note IH = "1.IH"[OF refl refl]
  show ?case
  proof (rule assms)
    fix fs g
    assume "field_base f \<notin> set p" "scalar_example (field_base f) (fdescription f) = None"
      "map_of T (field_base f) = Some (FieldsDef fs)" "g \<in> set fs"
    then show "P T g (p @ [field_base f])" by (rule IH[OF _ _ _ refl])
  qed
qed

text \<open>The branches of the synthesizer, each with its result.\<close>

lemma build_mock_json_cases:
  obtains (visited) "field_base f \<in> set p" "build_mock_json T f p = Some JUndefined"
  | (scalar) v where "field_base f \<notin> set p" "scalar_example (field_base f) (fdescription f) = Some v"
      "build_mock_json T f p = Some (wrap_list (field_is_list f) v)"
  | (leaf) "field_base f \<notin> set p" "scalar_example (field_base f) (fdescription f) = None"
      "map_of T (field_base f) = None \<or> map_of T (field_base f) = Some OtherDef"
      "build_mock_json T f p = Some (wrap_list (field_is_list f) (JObject []))"
  | (enum) vs where "field_base f \<notin> set p" "scalar_example (field_base f) (fdescription f) = None"
      "map_of T (field_base f) = Some (EnumDef vs)"
      "build_mock_json T f p =
         (case vs of [] \<Rightarrow> None | v # _ \<Rightarrow> Some (wrap_list (field_is_list f) (ev_value v)))"
  | (fields) fs where "field_base f \<notin> set p" "scalar_example (field_base f) (fdescription f) = None"
      "map_of T (field_base f) = Some (FieldsDef fs)"
      "build_mock_json T f p =
         (case those (map (\<lambda>g. build_mock_json T g (p @ [field_base f])) fs) of
            None \<Rightarrow> None
          | Some vs \<Rightarrow>
              Some (wrap_list (field_is_list f) (JObject (js_assign (zip (map fname fs) vs) []))))"
proof (cases "field_base f \<in> set p")
  case True
  then show ?thesis by (intro visited) (simp_all add: build_mock_json.simps)
next
  case vis: False
  show ?thesis
  proof (cases "scalar_example (field_base f) (fdescription f)")
    case (Some v)
    with vis show ?thesis by (intro scalar) (simp_all add: mock_scalar)
  next
    case sc: None
    show ?thesis
    proof (cases "map_of T (field_base f)")
      case None
      with vis sc show ?thesis by (intro leaf) (simp_all add: mock_unknown)
    next
      case (Some def)
      show ?thesis
      proof (cases def)
        case (EnumDef vs)
        with vis sc Some show ?thesis
          by (intro enum[of vs]) (simp_all add: build_mock_json.simps)
      next
        case (FieldsDef fs)
        with Some have m: "map_of T (field_base f) = Some (FieldsDef fs)" by simp
        from vis sc m mock_fields[OF vis sc m] show ?thesis by (rule fields)
      next
        case OtherDef
        with vis sc Some show ?thesis by (intro leaf) (simp_all add: mock_other)
      qed
    qed
  qed
qed

lemma those_Some_iff:
  "those xs = Some ys \<longleftrightarrow> xs = map Some ys"
  by (induction xs arbitrary: ys) (auto split: option.splits)

lemma those_None_iff:
  "those xs = None \<longleftrightarrow> None \<in> set xs"
  by (induction xs) (auto split: option.splits)

lemma build_mock_json_Some:
  assumes "\<forall>n. map_of T n \<noteq> Some (EnumDef [])"
  shows "\<exists>v. build_mock_json T f p = Some v"
  using assms
proof (induction T f p rule: build_mock_json_induct)
  case (step T f p)
  show ?case
  proof (cases "field_base f \<in> set p")
    case True
    then show ?thesis by (simp add: build_mock_json.simps)
  next
    case vis: False
    show ?thesis
    proof (cases "scalar_example (field_base f) (fdescription f)")
      case (Some v)
      with vis show ?thesis by (simp add: mock_scalar)
    next
      case sc: None
      show ?thesis
      proof (cases "map_of T (field_base f)")
        case None
        with vis sc show ?thesis by (simp add: mock_unknown)
      next
        case (Some def)
        show ?thesis
        proof (cases def)
          case (EnumDef vs)
          with Some step.prems obtain v vs' where "vs = v # vs'" by (cases vs) auto
          with vis sc Some EnumDef show ?thesis by (simp add: mock_enum)
        next
          case (FieldsDef fs)
          have "\<forall>g \<in> set fs. \<exists>v. build_mock_json T g (p @ [field_base f]) = Some v"
            using step.IH[OF vis sc] Some FieldsDef step.prems by blast
          then have "None \<notin> set (map (\<lambda>g. build_mock_json T g (p @ [field_base f])) fs)"
            by auto
          then have "those (map (\<lambda>g. build_mock_json T g (p @ [field_base f])) fs) \<noteq> None"
            by (simp only: those_None_iff) simp
          then obtain vs where "those (map (\<lambda>g. build_mock_json T g (p @ [field_base f])) fs) = Some vs"
            by blast
          with vis sc Some FieldsDef show ?thesis by (simp add: mock_fields)
        next
          case OtherDef
          with vis sc Some show ?thesis by (simp add: mock_other)
        qed
      qed
    qed
  qed
qed

section \<open>Properties\<close>

text \<open>
  C1. On a schema whose enums all have values (a graphql-js validity rule), every call
  returns a value: the walk terminates and never throws.
\<close>

theorem build_mock_json_total:
  "Schema.enums_nonempty T \<Longrightarrow> \<exists>v. build_mock_json T f p = Some v"
  by (intro build_mock_json_Some) simp

text \<open>
  C9. An object-typed field gets an object with one property per field of the type, in
  declaration order, each holding that field's own example (a list field gets it wrapped).
\<close>

theorem build_mock_json_object:
  assumes "field_base f \<notin> set p" and "scalar_example (field_base f) (fdescription f) = None"
    and "map_of T (field_base f) = Some (FieldsDef fs)" and "distinct (map fname fs)"
    and "build_mock_json T f p = Some v"
  shows "\<exists>vs. v = wrap_list (field_is_list f) (JObject (zip (map fname fs) vs))
           \<and> map Some vs = map (\<lambda>g. build_mock_json T g (p @ [field_base f])) fs"
proof -
  from assms(5) mock_fields[OF assms(1-3)] obtain vs
    where th: "those (map (\<lambda>g. build_mock_json T g (p @ [field_base f])) fs) = Some vs"
      and v: "v = wrap_list (field_is_list f) (JObject (js_assign (zip (map fname fs) vs) []))"
    by (auto split: option.splits)
  from th have vs: "map Some vs = map (\<lambda>g. build_mock_json T g (p @ [field_base f])) fs"
    by (simp add: those_Some_iff)
  then have "length vs = length (map fname fs)" by (metis length_map)
  with assms(4) v have "v = wrap_list (field_is_list f) (JObject (zip (map fname fs) vs))"
    by (simp add: js_assign_fresh)
  with vs show ?thesis by blast
qed
lemma scalar_example_None_iff:
  "scalar_example ty d = None \<longleftrightarrow> ty \<notin> set builtin_scalars"
  by (simp add: scalar_example_def builtin_scalars_def)

lemma wrap_list_defined:
  "v \<noteq> JUndefined \<Longrightarrow> wrap_list b v \<noteq> JUndefined"
  by (simp add: wrap_list_def)

lemma scalar_example_defined:
  "scalar_example ty d = Some v \<Longrightarrow> v \<noteq> JUndefined"
  by (auto simp: scalar_example_def split: if_splits)

text \<open>
  The member of an object example for one of its fields: with distinct field names it is
  that field's own example, computed on the extended path.
\<close>

lemma mock_object_member:
  assumes "field_base f \<notin> set p" and "scalar_example (field_base f) (fdescription f) = None"
    and "map_of T (field_base f) = Some (FieldsDef fs)" and "distinct (map fname fs)"
    and "g \<in> set fs" and "build_mock_json T f p = Some v"
  shows "\<exists>obj u. v = wrap_list (field_is_list f) (JObject obj) \<and> map_of obj (fname g) = Some u
           \<and> build_mock_json T g (p @ [field_base f]) = Some u"
proof -
  let ?h = "\<lambda>g. build_mock_json T g (p @ [field_base f])"
  from assms(6) mock_fields[OF assms(1-3)] obtain vs where th: "those (map ?h fs) = Some vs"
    and v: "v = wrap_list (field_is_list f) (JObject (js_assign (zip (map fname fs) vs) []))"
    by (auto split: option.splits)
  from th have m: "map Some vs = map ?h fs" by (simp add: those_Some_iff)
  then have "length vs = length (map fname fs)" by (metis length_map)
  with v assms(4) have "v = wrap_list (field_is_list f) (JObject (zip (map fname fs) vs))"
    by (simp add: js_assign_fresh)
  moreover obtain u where "map_of (zip (map fname fs) vs) (fname g) = Some u" and "?h g = Some u"
    using map_of_zip_map[OF assms(4,5) m] by blast
  ultimately show ?thesis by blast
qed

end
