(* ===== verification/ResponseShape.thy ===== *)
theory ResponseShape
  imports TypeExpr
begin

text \<open>
  The response-shape synthesizer, \<open>buildResponseSchema(field, path)\<close> of
  \<open>src/index.js\<close> (lines 92--146): the selection set of the example query. It returns
  \<open>undefined\<close> for a field whose base type is already on \<open>path\<close>, \<open>''\<close> for enums and
  unknown names, the field name for builtin scalars (\<open>''\<close> at the root), and for other
  defined types the non-empty child selections joined by a space, wrapped in braces by a
  template literal (prefixed by the field name below the root); with no child selection
  it is the field name (\<open>''\<close> at the root). The root is recognised by \<open>path.length === 1\<close>
  after the push. The result is \<open>string option\<close>, \<open>None\<close> being \<open>undefined\<close>.

  Below the concrete definitions, \<open>select\<close> is the abstract selection tree the string
  denotes, and the refinement lemma says the string is its printed form.
\<close>

section \<open>Definitions\<close>

text \<open>
  Lines 118--121 and 127--130: the template literal around a non-empty selection,
  whitespace included.
\<close>

definition sel_block :: "string \<Rightarrow> string" where
  "sel_block sub =
     '' {'' @ nl @ spaces 32 @ sub @ nl @ spaces 28 @ ''}'' @ spaces 4 @ nl @ spaces 24"

text \<open>Line 115: \<open>sub.filter(e => !!e)\<close> drops \<open>undefined\<close> and \<open>''\<close>.\<close>

definition truthy_strings :: "string option list \<Rightarrow> string list" where
  "truthy_strings xs =
     concat (map (\<lambda>x. case x of None \<Rightarrow> [] | Some s \<Rightarrow> if s = [] then [] else [s]) xs)"

text \<open>Lines 116--134: the result for an object type, given the joined child selections.\<close>

definition wrap_selection :: "bool \<Rightarrow> string \<Rightarrow> string \<Rightarrow> string" where
  "wrap_selection root name sub =
     (if root then (if sub \<noteq> [] then sel_block sub else [])
      else (if sub \<noteq> [] then name @ sel_block sub else name))"

function build_response_schema :: "type_map \<Rightarrow> gql_field \<Rightarrow> string list \<Rightarrow> string option" where
  "build_response_schema T f path =
     (let ty = base_type (type_to_string (ftype f))
      in if ty \<in> set path then None
         else if ty \<notin> set builtin_scalars then
           (case map_of T ty of
              None \<Rightarrow> Some []
            | Some (EnumDef _) \<Rightarrow> Some []
            | Some (FieldsDef fs) \<Rightarrow>
                Some (wrap_selection (length (path @ [ty]) = 1) (fname f)
                  (js_join '' '' (truthy_strings
                     (map (\<lambda>g. build_response_schema T g (path @ [ty])) fs))))
            | Some OtherDef \<Rightarrow> Some (wrap_selection (length (path @ [ty]) = 1) (fname f) []))
         else if length (path @ [ty]) = 1 then Some [] else Some (fname f))"
  by pat_completeness auto
termination
  by (relation "measure (\<lambda>(T, f, path). unvisited T path)")
     (auto simp: Let_def intro: unvisited_snoc_less)

section \<open>The abstract selection\<close>

text \<open>
  What the selection string denotes: a tree of selected field names. A field is selected
  when its base type is not on the path and is a builtin scalar (a leaf), a defined type
  without \<open>_fields\<close> (a leaf), or an object type (a node over the selected fields of the
  type); enums, unknown names and back-edges select nothing. \<open>print_sel\<close> is the
  concrete syntax: a leaf is its name, a node its name and its children in a brace block.
\<close>

datatype selection = Sel string "selection list"

primrec sel_name :: "selection \<Rightarrow> string" where
  "sel_name (Sel n cs) = n"

fun print_sel :: "selection \<Rightarrow> string" where
  "print_sel (Sel n cs) = (if cs = [] then n else n @ sel_block (js_join '' '' (map print_sel cs)))"

definition somes :: "'a option list \<Rightarrow> 'a list" where
  "somes xs = concat (map (\<lambda>x. case x of None \<Rightarrow> [] | Some s \<Rightarrow> [s]) xs)"

function select :: "type_map \<Rightarrow> gql_field \<Rightarrow> string list \<Rightarrow> selection option" where
  "select T f p =
     (let ty = field_base f
      in if ty \<in> set p then None
         else if ty \<in> set builtin_scalars then Some (Sel (fname f) [])
         else (case map_of T ty of
                 None \<Rightarrow> None
               | Some (EnumDef _) \<Rightarrow> None
               | Some (FieldsDef fs) \<Rightarrow>
                   Some (Sel (fname f) (somes (map (\<lambda>g. select T g (p @ [ty])) fs)))
               | Some OtherDef \<Rightarrow> Some (Sel (fname f) [])))"
  by pat_completeness auto
termination
  by (relation "measure (\<lambda>(T, f, p). unvisited T p)") (auto simp: Let_def intro: unvisited_snoc_less)

text \<open>JavaScript truthiness of a selection result: \<open>undefined\<close> and \<open>''\<close> are dropped.\<close>

definition truthy :: "string option \<Rightarrow> string option" where
  "truthy x = (case x of Some s \<Rightarrow> if s = [] then None else Some s | None \<Rightarrow> None)"

text \<open>Every field of every object type has a non-empty name (GraphQL names are).\<close>

definition fields_named :: "type_map \<Rightarrow> bool" where
  "fields_named T \<longleftrightarrow> (\<forall>n fs. map_of T n = Some (FieldsDef fs) \<longrightarrow> (\<forall>g \<in> set fs. fname g \<noteq> []))"

section \<open>One equation per branch\<close>

lemma base_type_field [simp]:
  "base_type (type_to_string (ftype f)) = field_base f"
  by (simp add: field_base_def base_type_parse_type)

declare build_response_schema.simps [simp del]

text \<open>
  The cycle guard: a field whose base type is already on the path yields \<open>undefined\<close>, which the
  parent's filter drops: a back-edge contributes nothing to the selection.
\<close>

lemma build_response_schema_visited:
  "field_base f \<in> set p \<Longrightarrow> build_response_schema T f p = None"
  by (simp add: build_response_schema.simps)

lemma shape_builtin:
  "field_base f \<notin> set p \<Longrightarrow> field_base f \<in> set builtin_scalars \<Longrightarrow>
   build_response_schema T f p = Some (if p = [] then [] else fname f)"
  by (simp add: build_response_schema.simps)

lemma shape_unknown:
  "field_base f \<notin> set p \<Longrightarrow> field_base f \<notin> set builtin_scalars \<Longrightarrow>
   map_of T (field_base f) = None \<Longrightarrow> build_response_schema T f p = Some []"
  by (simp add: build_response_schema.simps)

lemma shape_enum:
  "field_base f \<notin> set p \<Longrightarrow> field_base f \<notin> set builtin_scalars \<Longrightarrow>
   map_of T (field_base f) = Some (EnumDef vs) \<Longrightarrow> build_response_schema T f p = Some []"
  by (simp add: build_response_schema.simps)

lemma shape_other:
  "field_base f \<notin> set p \<Longrightarrow> field_base f \<notin> set builtin_scalars \<Longrightarrow>
   map_of T (field_base f) = Some OtherDef \<Longrightarrow>
   build_response_schema T f p = Some (if p = [] then [] else fname f)"
  by (simp add: build_response_schema.simps wrap_selection_def)

lemma shape_fields:
  "field_base f \<notin> set p \<Longrightarrow> field_base f \<notin> set builtin_scalars \<Longrightarrow>
   map_of T (field_base f) = Some (FieldsDef fs) \<Longrightarrow>
   build_response_schema T f p =
     Some (wrap_selection (p = []) (fname f)
       (js_join '' '' (truthy_strings (map (\<lambda>g. build_response_schema T g (p @ [field_base f])) fs))))"
  by (subst build_response_schema.simps) (simp add: Let_def)

section \<open>Induction\<close>

lemma build_response_schema_induct [case_names step]:
  assumes "\<And>T f p. (\<And>fs g. field_base f \<notin> set p \<Longrightarrow> field_base f \<notin> set builtin_scalars \<Longrightarrow>
              map_of T (field_base f) = Some (FieldsDef fs) \<Longrightarrow> g \<in> set fs \<Longrightarrow>
              P T g (p @ [field_base f])) \<Longrightarrow> P T f p"
  shows "P T f p"
proof (induction T f p rule: build_response_schema.induct)
  case (1 T f p)
  note IH = "1.IH"[OF refl, unfolded base_type_field]
  show ?case
  proof (rule assms)
    fix fs g
    assume "field_base f \<notin> set p" "field_base f \<notin> set builtin_scalars"
      "map_of T (field_base f) = Some (FieldsDef fs)" "g \<in> set fs"
    then show "P T g (p @ [field_base f])" by (rule IH[OF _ _ _ refl])
  qed
qed

text \<open>The branches of the shape synthesizer, each with its result.\<close>

lemma build_response_schema_cases:
  obtains (visited) "field_base f \<in> set p" "build_response_schema T f p = None"
  | (leaf) "field_base f \<notin> set p"
      "field_base f \<in> set builtin_scalars \<or> map_of T (field_base f) = Some OtherDef"
      "build_response_schema T f p = Some (if p = [] then [] else fname f)"
  | (empty) "field_base f \<notin> set p" "field_base f \<notin> set builtin_scalars"
      "map_of T (field_base f) = None \<or> (\<exists>vs. map_of T (field_base f) = Some (EnumDef vs))"
      "build_response_schema T f p = Some []"
  | (fields) fs where "field_base f \<notin> set p" "field_base f \<notin> set builtin_scalars"
      "map_of T (field_base f) = Some (FieldsDef fs)"
      "build_response_schema T f p =
         Some (wrap_selection (p = []) (fname f)
           (js_join '' '' (truthy_strings (map (\<lambda>g. build_response_schema T g (p @ [field_base f])) fs))))"
proof (cases "field_base f \<in> set p")
  case True
  then show ?thesis by (intro visited) (simp_all add: build_response_schema.simps)
next
  case vis: False
  show ?thesis
  proof (cases "field_base f \<in> set builtin_scalars")
    case True
    with vis show ?thesis by (intro leaf) (simp_all add: shape_builtin)
  next
    case bi: False
    show ?thesis
    proof (cases "map_of T (field_base f)")
      case None
      with vis bi show ?thesis by (intro empty) (simp_all add: shape_unknown)
    next
      case (Some def)
      show ?thesis
      proof (cases def)
        case (EnumDef vs)
        with vis bi Some show ?thesis by (intro empty) (auto simp: shape_enum)
      next
        case (FieldsDef fs)
        with Some have m: "map_of T (field_base f) = Some (FieldsDef fs)" by simp
        from vis bi m shape_fields[OF vis bi m] show ?thesis by (rule fields)
      next
        case OtherDef
        with vis bi Some show ?thesis by (intro leaf) (simp_all add: shape_other)
      qed
    qed
  qed
qed

declare select.simps [simp del]

lemma truthy_strings_somes: "truthy_strings xs = somes (map truthy xs)"
  by (induction xs) (auto simp: truthy_strings_def somes_def truthy_def split: option.splits)

lemma somes_map_option: "somes (map (map_option h) xs) = map h (somes xs)"
  by (induction xs) (auto simp: somes_def split: option.splits)

lemma select_name: "select T f p = Some s \<Longrightarrow> sel_name s = fname f"
  by (subst (asm) select.simps) (auto simp: Let_def split: if_splits option.splits type_def.splits)

lemma print_sel_nonempty: "sel_name s \<noteq> [] \<Longrightarrow> print_sel s \<noteq> []"
  by (cases s) simp

lemma set_somes: "set (somes xs) = {s. Some s \<in> set xs}"
  by (induction xs) (auto simp: somes_def split: option.splits)

lemma select_fields:
  "field_base f \<notin> set p \<Longrightarrow> field_base f \<notin> set builtin_scalars \<Longrightarrow>
   map_of T (field_base f) = Some (FieldsDef fs) \<Longrightarrow>
   select T f p = Some (Sel (fname f) (somes (map (\<lambda>g. select T g (p @ [field_base f])) fs)))"
  by (subst select.simps) (simp add: Let_def)

lemma fields_named_child:
  "fields_named T \<Longrightarrow> map_of T n = Some (FieldsDef fs) \<Longrightarrow> g \<in> set fs \<Longrightarrow> fname g \<noteq> []"
  unfolding fields_named_def by blast

lemma truthy_children:
  assumes "\<And>g. g \<in> set fs \<Longrightarrow> truthy (build_response_schema T g p') = map_option print_sel (select T g p')"
  shows "truthy_strings (map (\<lambda>g. build_response_schema T g p') fs)
           = map print_sel (somes (map (\<lambda>g. select T g p') fs))"
proof -
  have "map (\<lambda>g. truthy (build_response_schema T g p')) fs
      = map (\<lambda>g. map_option print_sel (select T g p')) fs"
    using assms by (rule map_cong[OF refl])
  then show ?thesis
    by (simp only: truthy_strings_somes map_map comp_def somes_map_option[symmetric])
qed

lemma print_children_empty:
  assumes "fields_named T" and "map_of T n = Some (FieldsDef fs)"
  shows "js_join '' '' (map print_sel (somes (map (\<lambda>g. select T g p') fs))) = []
           \<longleftrightarrow> somes (map (\<lambda>g. select T g p') fs) = []"
proof -
  have "\<forall>c \<in> set (somes (map (\<lambda>g. select T g p') fs)). print_sel c \<noteq> []"
  proof
    fix c assume "c \<in> set (somes (map (\<lambda>g. select T g p') fs))"
    then obtain g where g: "g \<in> set fs" and "select T g p' = Some c"
      by (auto simp: set_somes)
    then have "sel_name c = fname g" by (simp add: select_name)
    with fields_named_child[OF assms g] show "print_sel c \<noteq> []"
      by (simp add: print_sel_nonempty)
  qed
  then show ?thesis by auto
qed

section \<open>Refinement\<close>

text \<open>
  Below the root, the selection string (with JavaScript truthiness) is the printed abstract
  selection. By induction along the walk.
\<close>

lemma shape_refines:
  assumes "fields_named T" and "p \<noteq> []" and "fname f \<noteq> []"
  shows "truthy (build_response_schema T f p) = map_option print_sel (select T f p)"
  using assms
proof (induction T f p rule: build_response_schema_induct)
  case (step T f p)
  note named = step.prems(1) and pne = step.prems(2) and fne = step.prems(3)
  show ?case
  proof (cases "field_base f \<in> set p")
    case True
    then show ?thesis by (simp add: build_response_schema.simps select.simps truthy_def)
  next
    case vis: False
    show ?thesis
    proof (cases "field_base f \<in> set builtin_scalars")
      case True
      with vis pne fne show ?thesis by (simp add: shape_builtin select.simps truthy_def)
    next
      case bi: False
      show ?thesis
      proof (cases "map_of T (field_base f)")
        case None
        with vis bi show ?thesis by (simp add: shape_unknown select.simps truthy_def)
      next
        case (Some def)
        show ?thesis
        proof (cases def)
          case (EnumDef vs)
          with Some vis bi show ?thesis by (simp add: shape_enum select.simps truthy_def)
        next
          case OtherDef
          with Some vis bi pne fne show ?thesis
            by (simp add: shape_other select.simps truthy_def)
        next
          case (FieldsDef fs)
          note fs = Some[unfolded FieldsDef]
          let ?p' = "p @ [field_base f]"
          let ?cs = "somes (map (\<lambda>g. select T g ?p') fs)"
          have sub: "truthy_strings (map (\<lambda>g. build_response_schema T g ?p') fs) = map print_sel ?cs"
          proof (rule truthy_children)
            fix g assume g: "g \<in> set fs"
            have "fname g \<noteq> []" using fields_named_child[OF named fs g] .
            with named g show "truthy (build_response_schema T g ?p') = map_option print_sel (select T g ?p')"
              by (intro step.IH[OF vis bi fs g]) simp_all
          qed
          have join: "js_join '' '' (map print_sel ?cs) = [] \<longleftrightarrow> ?cs = []"
            using named fs by (rule print_children_empty)
          have "build_response_schema T f p =
                  Some (wrap_selection False (fname f) (js_join '' '' (map print_sel ?cs)))"
            using shape_fields[OF vis bi fs] sub pne by simp
          moreover have "select T f p = Some (Sel (fname f) ?cs)"
            by (rule select_fields[OF vis bi fs])
          ultimately show ?thesis
            using join fne by (simp add: wrap_selection_def truthy_def)
        qed
      qed
    qed
  qed
qed
text \<open>
  C6. At the root, which is how \<open>buildQueryInput\<close> calls it (line 150), the selection
  text is the brace block of the printed children of the abstract selection, or empty when
  nothing is selected below the operation: no empty brace pair is ever printed.
\<close>

theorem build_response_schema_root:
  assumes "fields_named T"
  shows "build_response_schema T f [] =
           Some (case select T f [] of
                   None \<Rightarrow> []
                 | Some (Sel n cs) \<Rightarrow> if cs = [] then [] else sel_block (js_join '' '' (map print_sel cs)))"
proof (cases rule: build_response_schema_cases[where T = T and f = f and p = "[]"])
  case (fields fs)
  let ?p' = "[] @ [field_base f]"
  let ?cs = "somes (map (\<lambda>g. select T g ?p') fs)"
  have sub: "truthy_strings (map (\<lambda>g. build_response_schema T g ?p') fs) = map print_sel ?cs"
  proof (rule truthy_children)
    fix g assume g: "g \<in> set fs"
    with assms fields(3) show "truthy (build_response_schema T g ?p') = map_option print_sel (select T g ?p')"
      by (intro shape_refines fields_named_child) simp_all
  qed
  have join: "js_join '' '' (map print_sel ?cs) = [] \<longleftrightarrow> ?cs = []"
    using assms fields(3) by (rule print_children_empty)
  have "select T f [] = Some (Sel (fname f) ?cs)"
    by (rule select_fields[OF fields(1-3)])
  with fields(4) sub join show ?thesis by (simp add: wrap_selection_def)
qed (auto simp: select.simps Let_def)

end
