(* ===== verification/JsonText.thy ===== *)
theory JsonText
  imports Prelude
begin

text \<open>
  \<open>JSON.stringify(value, undefined, 4)\<close>, which \<open>src/index.js\<close> applies to the example
  request and response (lines 190 and 199). It is the ECMAScript builtin, modelled after
  the standard's SerializeJSONProperty with a gap of four spaces: \<open>undefined\<close> members of
  an object are left out, \<open>undefined\<close> elements of an array print as \<open>null\<close>, empty
  objects and arrays print as \<open>{}\<close> and \<open>[]\<close>, other members go one per line, indented
  by four more spaces, with \<open>": "\<close> between key and value; strings are quoted with the
  standard's escapes (\<open>\b \t \n \f \r \" \\\<close> and \<open>\u00XX\<close> for other control
  characters; bytes of multi-byte UTF-8 characters pass unchanged).
\<close>

text \<open>The double quote and the backslash.\<close>

definition dq :: char where "dq = CHR 0x22"
definition bsl :: char where "bsl = CHR 0x5C"

definition hex_digit :: "nat \<Rightarrow> char" where
  "hex_digit n = (if n < 10 then char_of (48 + n) else char_of (87 + n))"

definition json_escape_char :: "char \<Rightarrow> string" where
  "json_escape_char c =
     (let k = of_char c :: nat in
      if k = 8 then [bsl, CHR ''b'']
      else if k = 9 then [bsl, CHR ''t'']
      else if k = 10 then [bsl, CHR ''n'']
      else if k = 12 then [bsl, CHR ''f'']
      else if k = 13 then [bsl, CHR ''r'']
      else if c = dq then [bsl, dq]
      else if c = bsl then [bsl, bsl]
      else if k < 32 then [bsl, CHR ''u'', CHR ''0'', CHR ''0'', hex_digit (k div 16), hex_digit (k mod 16)]
      else [c])"

definition json_quote :: "string \<Rightarrow> string" where
  "json_quote s = dq # concat (map json_escape_char s) @ [dq]"

fun json_ser :: "string \<Rightarrow> jval \<Rightarrow> string option" where
  "json_ser ind JUndefined = None"
| "json_ser ind JNull = Some ''null''"
| "json_ser ind (JBool b) = Some (if b then ''true'' else ''false'')"
| "json_ser ind (JNumber n) = Some n"
| "json_ser ind (JString s) = Some (json_quote s)"
| "json_ser ind (JArray vs) =
     (let ind' = ind @ spaces 4;
          parts = map (\<lambda>v. case json_ser ind' v of None \<Rightarrow> ''null'' | Some t \<Rightarrow> t) vs
      in Some (if parts = [] then ''[]''
               else ''['' @ nl @ ind' @ js_join ('','' @ nl @ ind') parts @ nl @ ind @ '']''))"
| "json_ser ind (JObject kvs) =
     (let ind' = ind @ spaces 4;
          parts = concat (map (\<lambda>(k, v). case json_ser ind' v of None \<Rightarrow> []
                                 | Some t \<Rightarrow> [json_quote k @ '': '' @ t]) kvs)
      in Some (if parts = [] then ''{}''
               else ''{'' @ nl @ ind' @ js_join ('','' @ nl @ ind') parts @ nl @ ind @ ''}''))"

definition json_stringify :: "jval \<Rightarrow> string option" where
  "json_stringify v = json_ser [] v"

text \<open>\<open>lines.push(JSON.stringify(...))\<close>: an \<open>undefined\<close> result joins as the empty string.\<close>

definition join_text :: "string option \<Rightarrow> string" where
  "join_text r = (case r of None \<Rightarrow> [] | Some s \<Rightarrow> s)"

section \<open>Lemmas\<close>

lemma hex_digit_printable: "n < 16 \<Longrightarrow> 48 \<le> (of_char (hex_digit n) :: nat)"
  by (simp add: hex_digit_def)

lemma json_escape_char_printable:
  assumes "c \<in> set (json_escape_char d)"
  shows "32 \<le> (of_char c :: nat)"
proof -
  define k where "k = (of_char d :: nat)"
  have "k < 256" by (simp add: k_def)
  then have h: "k div 16 < 16" "k mod 16 < 16" by presburger+
  have "c \<in> {bsl, dq, CHR ''b'', CHR ''t'', CHR ''n'', CHR ''f'', CHR ''r'', CHR ''u'', CHR ''0'',
              hex_digit (k div 16), hex_digit (k mod 16)} \<or> (c = d \<and> \<not> k < 32)"
    using assms unfolding json_escape_char_def k_def[symmetric] Let_def
    by (auto split: if_splits)
  then show ?thesis
    using hex_digit_printable[OF h(1)] hex_digit_printable[OF h(2)]
    by (auto simp: dq_def bsl_def k_def)
qed

lemma json_quote_no_control:
  "c \<in> set (json_quote s) \<Longrightarrow> 32 \<le> (of_char c :: nat)"
  by (auto simp: json_quote_def dq_def dest: json_escape_char_printable)

lemma concat_map_drop_empty:
  "(\<And>x. x \<in> set xs \<Longrightarrow> \<not> P x \<Longrightarrow> h x = []) \<Longrightarrow> concat (map h (filter P xs)) = concat (map h xs)"
  by (induction xs) auto

lemma json_ser_omits_undefined:
  "json_ser ind (JObject kvs) = json_ser ind (JObject (filter (\<lambda>(k, v). v \<noteq> JUndefined) kvs))"
proof -
  let ?h = "\<lambda>(k, v). case json_ser (ind @ spaces 4) v of None \<Rightarrow> [] | Some t \<Rightarrow> [json_quote k @ '': '' @ t]"
  have "concat (map ?h (filter (\<lambda>(k, v). v \<noteq> JUndefined) kvs)) = concat (map ?h kvs)"
    by (rule concat_map_drop_empty) auto
  then show ?thesis by (simp only: json_ser.simps Let_def)
qed
lemma json_ser_Some:
  "v \<noteq> JUndefined \<Longrightarrow> \<exists>t. json_ser ind v = Some t"
  by (cases v) (simp_all add: Let_def)

lemma json_ser_object_two:
  assumes "json_ser (ind @ spaces 4) a = Some ta" and "json_ser (ind @ spaces 4) b = Some tb"
  shows "json_ser ind (JObject [(ka, a), (kb, b)]) =
           Some (''{'' @ nl @ ind @ spaces 4 @ json_quote ka @ '': '' @ ta @ '','' @ nl @ ind @ spaces 4
                 @ json_quote kb @ '': '' @ tb @ nl @ ind @ ''}'')"
  using assms by (simp add: Let_def)

end
