(* ===== verification/Plugin.thy ===== *)
theory Plugin
  imports FieldTable MockJson ResponseShape JsonText
begin

text \<open>
  The orchestration, \<open>plugin(schema, documents, config)\<close> of \<open>src/index.js\<close>
  (lines 9--13 and 148--202). It reads the type map and the root query fields (line 11
  throws when the schema has no query type), pushes a fixed header onto \<open>lines\<close>, then
  for each operation, in declaration order: a heading and fixed rows, the argument tables
  (\<open>addSubFields(1, arg, [])\<close>), the return-type table (\<open>addSubFields(0, query, [])\<close>),
  the example request (the JSON of \<open>{query, variables}\<close>, the query text from
  \<open>buildQueryInput\<close>, the variables merged from one \<open>buildMockJson(arg, [])\<close> per
  argument) and the example response (the JSON of \<open>{data: buildMockJson(query, [])}\<close>).
  The lines are joined with two spaces and a newline. The state is the \<open>lines\<close> array,
  threaded through \<open>plugin_queries\<close> and \<open>add_sub_fields\<close>; an exception
  (\<open>None\<close>) from \<open>buildMockJson\<close> or from line 11 aborts the whole call.
\<close>

section \<open>The fixed texts\<close>

text \<open>Lines 158--166 (UTF-8 bytes of the Chinese text written out).\<close>

definition doc_header :: string where
  "doc_header = nl @ ''            ## '' @ [CHR 0xE8, CHR 0xB0, CHR 0x83, CHR 0xE7, CHR 0x94, CHR 0xA8, CHR 0xE8, CHR 0xAF, CHR 0xB4, CHR 0xE6, CHR 0x98, CHR 0x8E] @ ''  '' @ nl @ ''            ### '' @ [CHR 0xE6, CHR 0x8E, CHR 0xA5, CHR 0xE5, CHR 0x8F, CHR 0xA3, CHR 0xE5, CHR 0x9C, CHR 0xB0, CHR 0xE5, CHR 0x9D, CHR 0x80] @ ''  '' @ nl @ ''            <code>POST http://host:port/graphql<code>  '' @ nl @ ''            ### '' @ [CHR 0xE6, CHR 0x8E, CHR 0xA5, CHR 0xE5, CHR 0x8F, CHR 0xA3, CHR 0xE8, CHR 0xAE, CHR 0xA4, CHR 0xE8, CHR 0xAF, CHR 0x81] @ ''    '' @ nl @ ''            '' @ [CHR 0xE8, CHR 0xB0, CHR 0x83, CHR 0xE7, CHR 0x94, CHR 0xA8, CHR 0xE7, CHR 0x99, CHR 0xBB, CHR 0xE5, CHR 0xBD, CHR 0x95, CHR 0xE6, CHR 0x8E, CHR 0xA5, CHR 0xE5, CHR 0x8F, CHR 0xA3, CHR 0xE6, CHR 0x88, CHR 0x90, CHR 0xE5, CHR 0x8A, CHR 0x9F, CHR 0xE5, CHR 0x90, CHR 0x8E, CHR 0xE8, CHR 0x8E, CHR 0xB7, CHR 0xE5, CHR 0x8F, CHR 0x96, CHR 0xE5, CHR 0x88, CHR 0xB0] @ ''sessionId, '' @ [CHR 0xE9, CHR 0x80, CHR 0x9A, CHR 0xE8, CHR 0xBF, CHR 0x87] @ ''cookie'' @ [CHR 0xE6, CHR 0x88, CHR 0x96, CHR 0xE8, CHR 0x80, CHR 0x85] @ ''URL'' @ [CHR 0xE4, CHR 0xBC, CHR 0xA0, CHR 0xE5, CHR 0x8F, CHR 0x82, CHR 0xE7, CHR 0x9A, CHR 0x84, CHR 0xE6, CHR 0x96, CHR 0xB9, CHR 0xE5, CHR 0xBC, CHR 0x8F, CHR 0xE6, CHR 0x8F, CHR 0x90, CHR 0xE4, CHR 0xBA, CHR 0xA4, CHR 0xE5, CHR 0x9B, CHR 0x9E, CHR 0xE8, CHR 0xAF, CHR 0x9D] @ ''ID, '' @ [CHR 0xE4, CHR 0xBE, CHR 0x8B, CHR 0xE5, CHR 0xA6, CHR 0x82] @ '': POST http://host:port/graphql?_sessionId=sid'' @ nl @ ''            ### '' @ [CHR 0xE6, CHR 0x8E, CHR 0xA5, CHR 0xE5, CHR 0x8F, CHR 0xA3, CHR 0xE5, CHR 0x8F, CHR 0x82, CHR 0xE6, CHR 0x95, CHR 0xB0] @ nl @ ''            '' @ [CHR 0xE6, CHR 0x8C, CHR 0x89, CHR 0xE7, CHR 0x85, CHR 0xA7] @ ''GraphQL'' @ [CHR 0xE6, CHR 0x8E, CHR 0xA5, CHR 0xE5, CHR 0x8F, CHR 0xA3, CHR 0xE8, CHR 0xAF, CHR 0xAD, CHR 0xE6, CHR 0xB3, CHR 0x95, CHR 0xE8, CHR 0xA7, CHR 0x84, CHR 0xE5, CHR 0x88, CHR 0x99, CHR 0xE6, CHR 0x9E, CHR 0x84, CHR 0xE9, CHR 0x80, CHR 0xA0, CHR 0xE8, CHR 0xAF, CHR 0xB7, CHR 0xE6, CHR 0xB1, CHR 0x82, CHR 0xE4, CHR 0xBD, CHR 0x93] @ nl @ ''        ''"

text \<open>Lines 173--179: the fixed lines before the argument table.\<close>

definition intro_rows :: "string list" where
  "intro_rows =
     [''#### '' @ [CHR 0xE5, CHR 0x9C, CHR 0xB0, CHR 0xE5, CHR 0x9D, CHR 0x80] @ '' http://host:port/graphql'',
      ''#### '' @ [CHR 0xE8, CHR 0xAF, CHR 0xB7, CHR 0xE6, CHR 0xB1, CHR 0x82, CHR 0xE6, CHR 0x96, CHR 0xB9, CHR 0xE5, CHR 0xBC, CHR 0x8F] @ '' POST'']"

definition method_line :: "string \<Rightarrow> string" where
  "method_line name =
     ''#### '' @ [CHR 0xE6, CHR 0x96, CHR 0xB9, CHR 0xE6, CHR 0xB3, CHR 0x95, CHR 0xE5, CHR 0x90, CHR 0x8D] @ '' ''
     @ bslash @ ''<'' @ name @ bslash @ ''>''"

definition table_sep :: string where
  "table_sep = ''|----|----|-----|-----|''"

definition param_rows :: "string list" where
  "param_rows =
     [''|'' @ [CHR 0xE5, CHR 0x8F, CHR 0x82, CHR 0xE6, CHR 0x95, CHR 0xB0] @ ''|'' @ [CHR 0xE7, CHR 0xB1, CHR 0xBB, CHR 0xE5, CHR 0x9E, CHR 0x8B] @ ''|'' @ [CHR 0xE6, CHR 0x98, CHR 0xAF, CHR 0xE5, CHR 0x90, CHR 0xA6, CHR 0xE5, CHR 0xBF, CHR 0x85, CHR 0xE9, CHR 0xA1, CHR 0xBB] @ ''|'' @ [CHR 0xE8, CHR 0xAF, CHR 0xB4, CHR 0xE6, CHR 0x98, CHR 0x8E] @ ''|'',
      table_sep,
      ''|query|String|'' @ [CHR 0xE6, CHR 0x98, CHR 0xAF] @ ''|GraphQL'' @ [CHR 0xE8, CHR 0xAF, CHR 0xAD, CHR 0xE6, CHR 0xB3, CHR 0x95, CHR 0xE7, CHR 0x9A, CHR 0x84, CHR 0xE6, CHR 0x9F, CHR 0xA5, CHR 0xE8, CHR 0xAF, CHR 0xA2, CHR 0xE5, CHR 0xAE, CHR 0x9A, CHR 0xE4, CHR 0xB9, CHR 0x89] @ ''|'',
      ''|variables|Object|'' @ [CHR 0xE6, CHR 0x98, CHR 0xAF] @ ''|'' @ [CHR 0xE6, CHR 0x9F, CHR 0xA5, CHR 0xE8, CHR 0xAF, CHR 0xA2, CHR 0xE5, CHR 0x8F, CHR 0x82, CHR 0xE6, CHR 0x95, CHR 0xB0] @ ''|'']"

text \<open>Lines 182--185: the fixed lines before the return-type table.\<close>

definition response_rows :: "string list" where
  "response_rows =
     [[], ''#### '' @ [CHR 0xE5, CHR 0x93, CHR 0x8D, CHR 0xE5, CHR 0xBA, CHR 0x94, CHR 0xE7, CHR 0xB1, CHR 0xBB, CHR 0xE5, CHR 0x9E, CHR 0x8B, CHR 0xE5, CHR 0xAE, CHR 0x9A, CHR 0xE4, CHR 0xB9, CHR 0x89],
      ''|'' @ [CHR 0xE5, CHR 0xAD, CHR 0x97, CHR 0xE6, CHR 0xAE, CHR 0xB5] @ ''|'' @ [CHR 0xE7, CHR 0xB1, CHR 0xBB, CHR 0xE5, CHR 0x9E, CHR 0x8B] @ ''|'' @ [CHR 0xE6, CHR 0x98, CHR 0xAF, CHR 0xE5, CHR 0x90, CHR 0xA6, CHR 0xE5, CHR 0xBF, CHR 0x85, CHR 0xE9, CHR 0xA1, CHR 0xBB] @ ''|'' @ [CHR 0xE8, CHR 0xAF, CHR 0xB4, CHR 0xE6, CHR 0x98, CHR 0x8E] @ ''|'',
      table_sep]"

text \<open>Lines 189 and 198: the headings of the two examples.\<close>

definition request_heading :: string where
  "request_heading = ''#### '' @ [CHR 0xE8, CHR 0xAF, CHR 0xB7, CHR 0xE6, CHR 0xB1, CHR 0x82, CHR 0xE4, CHR 0xBD, CHR 0x93, CHR 0xE7, CHR 0xA4, CHR 0xBA, CHR 0xE4, CHR 0xBE, CHR 0x8B]"

definition response_heading :: string where
  "response_heading = ''#### '' @ [CHR 0xE5, CHR 0x93, CHR 0x8D, CHR 0xE5, CHR 0xBA, CHR 0x94, CHR 0xE4, CHR 0xBD, CHR 0x93, CHR 0xE7, CHR 0xA4, CHR 0xBA, CHR 0xE4, CHR 0xBE, CHR 0x8B]"

section \<open>The example request and response\<close>

text \<open>Lines 148--156.\<close>

definition build_query_input :: "type_map \<Rightarrow> gql_query \<Rightarrow> string" where
  "build_query_input T q =
     (let args = map (\<lambda>a. (fname a, ftype a)) (qargs q);
          responseSchema = build_response_schema T (qfield q) []
      in nl @ spaces 16 @ ''query search(''
         @ js_join '', '' (map (\<lambda>(n, t). ''$'' @ n @ '': '' @ type_to_string t) args) @ ''){''
         @ nl @ spaces 20 @ ''data: '' @ fname (qfield q) @ ''(''
         @ js_join '', '' (map (\<lambda>(n, t). n @ '': $'' @ n) args) @ '') ''
         @ js_to_string (case responseSchema of None \<Rightarrow> JUndefined | Some s \<Rightarrow> JString s)
         @ nl @ spaces 16 @ ''}'' @ nl @ spaces 12)"

text \<open>
  Lines 192--196: one \<open>{[arg.name]: buildMockJson(arg, [])}\<close> per argument, merged
  left to right by object spread (a later key overwrites, keeping the first position).
\<close>

definition build_variables :: "type_map \<Rightarrow> gql_field list \<Rightarrow> (string \<times> jval) list option" where
  "build_variables T args =
     map_option (\<lambda>vs. js_assign (zip (map fname args) vs) [])
       (those (map (\<lambda>a. build_mock_json T a []) args))"

text \<open>Lines 190--197.\<close>

definition request_example :: "type_map \<Rightarrow> gql_query \<Rightarrow> string option" where
  "request_example T q =
     map_option (\<lambda>vars. join_text (json_stringify
                   (JObject [(''query'', JString (build_query_input T q)), (''variables'', JObject vars)])))
       (build_variables T (qargs q))"

text \<open>Line 199.\<close>

definition response_example :: "type_map \<Rightarrow> gql_query \<Rightarrow> string option" where
  "response_example T q =
     map_option (\<lambda>d. join_text (json_stringify (JObject [(''data'', d)])))
       (build_mock_json T (qfield q) [])"

section \<open>The operations loop\<close>

text \<open>Lines 170--199: the lines one operation pushes onto \<open>lines\<close>.\<close>

definition query_lines :: "type_map \<Rightarrow> string \<Rightarrow> gql_query \<Rightarrow> string list \<Rightarrow> string list option" where
  "query_lines T name q lines =
     (let lines1 = lines @ [[], ''### '' @ js_or (fdescription (qfield q)) name] @ intro_rows
                     @ [method_line name] @ param_rows;
          lines2 = fold (\<lambda>a ls. add_sub_fields T 1 a [] ls) (qargs q) lines1;
          lines3 = add_sub_fields T 0 (qfield q) [] (lines2 @ response_rows)
      in case request_example T q of
           None \<Rightarrow> None
         | Some req \<Rightarrow>
             (case response_example T q of
                None \<Rightarrow> None
              | Some resp \<Rightarrow> Some (lines3 @ [[], request_heading, req, response_heading, resp])))"

text \<open>Lines 168--201: \<open>for (const name in queries)\<close>.\<close>

fun plugin_queries :: "type_map \<Rightarrow> query_map \<Rightarrow> string list \<Rightarrow> string list option" where
  "plugin_queries T [] lines = Some lines"
| "plugin_queries T ((name, q) # qs) lines =
     (case query_lines T name q lines of
        None \<Rightarrow> None
      | Some lines' \<Rightarrow> plugin_queries T qs lines')"

text \<open>Line 202: \<open>lines.join('  \n')\<close>, the Markdown hard line break between lines.\<close>

definition join_lines :: "string list \<Rightarrow> string" where
  "join_lines ls = js_join (''  '' @ nl) ls"

text \<open>
  Lines 9--13, 158 and 202. \<open>queries\<close> is \<open>None\<close> when the schema has no query type:
  \<open>schema.getQueryType().getFields()\<close> then throws, and the later \<open>if (queries)\<close> test
  (always true for a field map) is never reached.
\<close>

definition plugin :: "type_map \<Rightarrow> query_map option \<Rightarrow> string option" where
  "plugin T queries =
     (case queries of
        None \<Rightarrow> None
      | Some qs \<Rightarrow> map_option join_lines (plugin_queries T qs [doc_header]))"

section \<open>The lines are only appended to\<close>

lemma those_map_None_iff:
  "those (map g xs) = None \<longleftrightarrow> (\<exists>x \<in> set xs. g x = None)"
  by (induction xs) (auto split: option.splits)

lemma fold_add_sub_fields:
  "fold (\<lambda>a ls. add_sub_fields T d a [] ls) as lines
     = lines @ concat (map (\<lambda>a. map render_row (add_sub_rows T d a [])) as)"
  by (induction as arbitrary: lines) (simp_all add: add_sub_fields_def)

lemma request_example_None_iff:
  "request_example T q = None \<longleftrightarrow> (\<exists>a \<in> set (qargs q). build_mock_json T a [] = None)"
  by (simp add: request_example_def build_variables_def those_map_None_iff)

lemma response_example_None_iff:
  "response_example T q = None \<longleftrightarrow> build_mock_json T (qfield q) [] = None"
  by (simp add: response_example_def)

lemma query_lines_Some:
  assumes "request_example T q = Some req" and "response_example T q = Some resp"
  shows "query_lines T name q lines =
           Some (lines @ [[], ''### '' @ js_or (fdescription (qfield q)) name] @ intro_rows
                 @ [method_line name] @ param_rows
                 @ concat (map (\<lambda>a. map render_row (add_sub_rows T 1 a [])) (qargs q))
                 @ response_rows @ map render_row (add_sub_rows T 0 (qfield q) [])
                 @ [[], request_heading, req, response_heading, resp])"
  unfolding query_lines_def Let_def fold_add_sub_fields using assms by (simp add: add_sub_fields_def)

lemma query_lines_None_iff:
  "query_lines T name q lines = None \<longleftrightarrow> request_example T q = None \<or> response_example T q = None"
  by (simp add: query_lines_def Let_def split: option.split)

lemma query_lines_frame:
  "query_lines T name q lines = map_option ((@) lines) (query_lines T name q [])"
proof (cases "request_example T q = None \<or> response_example T q = None")
  case True
  then show ?thesis by (metis query_lines_None_iff option.map_disc_iff)
next
  case False
  then obtain req resp where "request_example T q = Some req" "response_example T q = Some resp"
    by auto
  then show ?thesis by (simp add: query_lines_Some)
qed

lemma plugin_queries_blocks:
  "plugin_queries T qs lines =
     map_option (\<lambda>bs. lines @ concat bs) (those (map (\<lambda>(n, q). query_lines T n q []) qs))"
proof (induction qs arbitrary: lines)
  case Nil
  then show ?case by simp
next
  case (Cons nq qs)
  obtain n q where nq: "nq = (n, q)" by fastforce
  show ?case
  proof (cases "query_lines T n q []")
    case None
    then show ?thesis using nq query_lines_frame[of T n q lines] by simp
  next
    case (Some b)
    then show ?thesis
      using nq Cons.IH[of "lines @ b"] query_lines_frame[of T n q lines]
      by (simp add: option.map_comp comp_def split: option.split)
  qed
qed

lemma plugin_queries_None_iff:
  "plugin_queries T qs lines = None \<longleftrightarrow> (\<exists>(n, q) \<in> set qs. query_lines T n q [] = None)"
  by (simp add: plugin_queries_blocks those_map_None_iff split_beta)

lemma plugin_Some_iff:
  "(\<exists>out. plugin T (Some qs) = Some out) \<longleftrightarrow>
     (\<forall>(n, q) \<in> set qs. build_mock_json T (qfield q) [] \<noteq> None
        \<and> (\<forall>a \<in> set (qargs q). build_mock_json T a [] \<noteq> None))"
proof -
  have "(\<exists>out. plugin T (Some qs) = Some out) \<longleftrightarrow> plugin_queries T qs [doc_header] \<noteq> None"
    by (auto simp: plugin_def)
  also have "\<dots> \<longleftrightarrow> (\<forall>(n, q) \<in> set qs. build_mock_json T (qfield q) [] \<noteq> None
        \<and> (\<forall>a \<in> set (qargs q). build_mock_json T a [] \<noteq> None))"
    by (auto simp: plugin_queries_None_iff query_lines_None_iff
        request_example_None_iff response_example_None_iff split_beta)
  finally show ?thesis .
qed

text \<open>
  C17. The plugin fails (throws) exactly when the schema has no query type, or when the
  example value of some operation's argument or return type throws; an argument's
  failure is met first, as the request body is built before the response body.
\<close>

theorem plugin_None_iff:
  "plugin T queries = None \<longleftrightarrow>
     queries = None \<or>
     (\<exists>qs. queries = Some qs \<and>
        (\<exists>(n, q) \<in> set qs. (\<exists>a \<in> set (qargs q). build_mock_json T a [] = None)
            \<or> build_mock_json T (qfield q) [] = None))"
  by (cases queries)
     (simp_all add: plugin_def plugin_queries_None_iff query_lines_None_iff
        request_example_None_iff response_example_None_iff split_beta)

text \<open>
  C16. On a schema whose query type exists and whose enums all have values, the plugin
  returns its Markdown text for every list of operations.
\<close>

theorem plugin_total:
  "Schema.enums_nonempty T \<Longrightarrow> \<exists>out. plugin T (Some qs) = Some out"
proof -
  assume "Schema.enums_nonempty T"
  then have "\<forall>n. map_of T n \<noteq> Some (EnumDef [])" by simp
  then have "\<And>f. build_mock_json T f [] \<noteq> None" using build_mock_json_Some by fastforce
  then show ?thesis by (simp add: plugin_Some_iff split_beta)
qed

text \<open>
  C18. The output is the fixed header followed by one block per operation, in declaration
  order, joined with two spaces and a newline; each block is the one the operation
  produces on an empty \<open>lines\<close> array, so no state passes between operations.
\<close>

theorem plugin_layout:
  "plugin T (Some qs) =
     map_option (\<lambda>bs. js_join (''  '' @ nl) (doc_header # concat bs))
       (those (map (\<lambda>(n, q). query_lines T n q []) qs))"
  by (simp add: plugin_def join_lines_def plugin_queries_blocks option.map_comp comp_def)

lemma build_variables_Some:
  assumes "build_variables T args = Some vars"
  obtains vs where "vars = js_assign (zip (map fname args) vs) []"
    and "map Some vs = map (\<lambda>a. build_mock_json T a []) args"
  using assms by (auto simp: build_variables_def those_Some_iff)

text \<open>
  C19. For arguments with distinct names, the request's \<open>variables\<close> object has one
  property per argument, in declaration order, holding that argument's example value.
\<close>

theorem build_variables_args:
  assumes "distinct (map fname args)" and "build_variables T args = Some vars"
  shows "\<exists>vs. vars = zip (map fname args) vs \<and> map Some vs = map (\<lambda>a. build_mock_json T a []) args"
proof -
  obtain vs where v: "vars = js_assign (zip (map fname args) vs) []"
    and vs: "map Some vs = map (\<lambda>a. build_mock_json T a []) args"
    using assms(2) by (rule build_variables_Some)
  then have "length vs = length (map fname args)" by (metis length_map)
  with assms(1) v have "vars = zip (map fname args) vs" by (simp add: js_assign_fresh)
  with vs show ?thesis by blast
qed

text \<open>
  C20. An operation without arguments is written \<open>query search(){ data: name() ...\<close>:
  empty variable definitions and an empty argument list, which GraphQL's grammar rejects.
\<close>

theorem build_query_input_no_args:
  assumes "qargs q = []"
  shows "\<exists>rest. build_query_input T q =
           nl @ spaces 16 @ ''query search(){'' @ nl @ spaces 20 @ ''data: '' @ fname (qfield q)
           @ ''() '' @ rest"
  using assms by (simp add: build_query_input_def Let_def)

end
