(* ===== verification/CallDepth.thy ===== *)
theory CallDepth
  imports FieldTable MockJson ResponseShape
begin

text \<open>
  The recursion of \<open>addSubFields\<close> and \<open>buildMockJson\<close> as JavaScript runs it: every call
  takes a frame of a bounded call stack, and a call made with no frame left throws a
  \<open>RangeError\<close> (maximum call stack size exceeded). The walkers are written again with
  the number of frames left as an explicit argument (a fuel that counts nesting depth, not
  calls), and their exceptions as values of \<open>js_error + 'a\<close>: \<open>TypeError\<close> is the
  \<open>_values[0]\<close> failure of \<open>buildMockJson\<close>, \<open>RangeError\<close> the exhausted stack. The
  sibling calls of a loop run left to right and the first exception aborts the loop
  (\<open>seq_results\<close>). The theorems say how many frames are enough: one more than the
  number of schema types not yet on the path, so a stack deeper than the schema has types
  never overflows, and then the budgeted walkers compute exactly what the
  measure-terminated models of \<open>FieldTable\<close> and \<open>MockJson\<close> compute.
\<close>

section \<open>Exceptions and loops\<close>

datatype js_error = TypeError | RangeError

text \<open>A \<open>for\<close> loop over sibling calls: the results in order, or the first exception.\<close>

fun seq_results :: "('e + 'a) list \<Rightarrow> 'e + 'a list" where
  "seq_results [] = Inr []"
| "seq_results (r # rs) =
     (case r of
        Inl e \<Rightarrow> Inl e
      | Inr x \<Rightarrow> (case seq_results rs of Inl e \<Rightarrow> Inl e | Inr xs \<Rightarrow> Inr (x # xs)))"

text \<open>\<open>buildMockJson\<close>'s result as an exception value: \<open>None\<close> is the \<open>TypeError\<close>.\<close>

definition type_error_of :: "'a option \<Rightarrow> js_error + 'a" where
  "type_error_of r = (case r of None \<Rightarrow> Inl TypeError | Some v \<Rightarrow> Inr v)"

section \<open>The walkers with a stack budget\<close>

text \<open>\<open>addSubFields\<close> (lines 14--51) with \<open>n\<close> frames left.\<close>

fun add_sub_rows_depth ::
  "nat \<Rightarrow> type_map \<Rightarrow> nat \<Rightarrow> gql_field \<Rightarrow> string list \<Rightarrow> js_error + table_row list" where
  "add_sub_rows_depth 0 T deep f path = Inl RangeError"
| "add_sub_rows_depth (Suc n) T deep f path =
     (let row = field_row deep f; ty = r_type row
      in if ty \<in> set path then Inr [row]
         else if ty \<in> set builtin_scalars then Inr [row]
         else (case map_of T ty of
                 None \<Rightarrow> Inr [row]
               | Some (EnumDef vs) \<Rightarrow> Inr [row, row\<lparr>r_desc := r_desc row @ enum_desc vs\<rparr>]
               | Some (FieldsDef fs) \<Rightarrow>
                   (case seq_results (map (\<lambda>g. add_sub_rows_depth n T (Suc deep) g (path @ [ty])) fs) of
                      Inl e \<Rightarrow> Inl e
                    | Inr rss \<Rightarrow> Inr (row # concat rss))
               | Some OtherDef \<Rightarrow> Inr [row]))"

text \<open>\<open>buildMockJson\<close> (lines 54--90) with \<open>n\<close> frames left.\<close>

fun build_mock_json_depth :: "nat \<Rightarrow> type_map \<Rightarrow> gql_field \<Rightarrow> string list \<Rightarrow> js_error + jval" where
  "build_mock_json_depth 0 T f path = Inl RangeError"
| "build_mock_json_depth (Suc n) T f path =
     (let ty = field_base f; isList = field_is_list f
      in if ty \<in> set path then Inr JUndefined
         else (case scalar_example ty (fdescription f) of
                 Some v \<Rightarrow> Inr (wrap_list isList v)
               | None \<Rightarrow>
                   (case map_of T ty of
                      None \<Rightarrow> Inr (wrap_list isList (JObject []))
                    | Some (EnumDef vs) \<Rightarrow>
                        (case vs of
                           [] \<Rightarrow> Inl TypeError
                         | v # _ \<Rightarrow> Inr (wrap_list isList (ev_value v)))
                    | Some (FieldsDef fs) \<Rightarrow>
                        (case seq_results (map (\<lambda>g. build_mock_json_depth n T g (path @ [ty])) fs) of
                           Inl e \<Rightarrow> Inl e
                         | Inr vs \<Rightarrow>
                             Inr (wrap_list isList (JObject (js_assign (zip (map fname fs) vs) []))))
                    | Some OtherDef \<Rightarrow> Inr (wrap_list isList (JObject [])))))"

text \<open>
  \<open>buildResponseSchema\<close> (lines 92--146) with \<open>n\<close> frames left; \<open>Inr None\<close> is its
  \<open>undefined\<close>.
\<close>

fun build_response_schema_depth ::
  "nat \<Rightarrow> type_map \<Rightarrow> gql_field \<Rightarrow> string list \<Rightarrow> js_error + string option" where
  "build_response_schema_depth 0 T f path = Inl RangeError"
| "build_response_schema_depth (Suc n) T f path =
     (let ty = base_type (type_to_string (ftype f))
      in if ty \<in> set path then Inr None
         else if ty \<notin> set builtin_scalars then
           (case map_of T ty of
              None \<Rightarrow> Inr (Some [])
            | Some (EnumDef _) \<Rightarrow> Inr (Some [])
            | Some (FieldsDef fs) \<Rightarrow>
                (case seq_results (map (\<lambda>g. build_response_schema_depth n T g (path @ [ty])) fs) of
                   Inl e \<Rightarrow> Inl e
                 | Inr subs \<Rightarrow>
                     Inr (Some (wrap_selection (length (path @ [ty]) = 1) (fname f)
                                 (js_join '' '' (truthy_strings subs)))))
            | Some OtherDef \<Rightarrow> Inr (Some (wrap_selection (length (path @ [ty]) = 1) (fname f) [])))
         else if length (path @ [ty]) = 1 then Inr (Some []) else Inr (Some (fname f)))"

section \<open>Lemmas\<close>

lemma seq_results_map_Inr [simp]:
  "seq_results (map (\<lambda>x. Inr (g x)) xs) = Inr (map g xs)"
  by (induction xs) simp_all

lemma seq_results_cong:
  "(\<And>x. x \<in> set xs \<Longrightarrow> h x = k x) \<Longrightarrow> seq_results (map h xs) = seq_results (map k xs)"
  by (metis map_cong)

lemma seq_results_those:
  "seq_results (map (\<lambda>x. type_error_of (g x)) xs) = type_error_of (those (map g xs))"
  by (induction xs) (auto simp: type_error_of_def split: option.splits)

lemma seq_results_Inr_member:
  "seq_results (map h xs) = Inr ys \<Longrightarrow> y \<in> set ys \<Longrightarrow> \<exists>x \<in> set xs. h x = Inr y"
  by (induction xs arbitrary: ys) (auto split: sum.splits)

lemma unvisited_child:
  "map_of T x = Some v \<Longrightarrow> x \<notin> set p \<Longrightarrow> unvisited T p < Suc n \<Longrightarrow> unvisited T (p @ [x]) < n"
  using unvisited_snoc_less[of T x v p] by simp

lemma add_sub_rows_depth_enough:
  "unvisited T p < n \<Longrightarrow> add_sub_rows_depth n T d f p = Inr (add_sub_rows T d f p)"
proof (induction n arbitrary: d f p)
  case 0
  then show ?case by simp
next
  case (Suc n)
  show ?case
  proof (cases rule: add_sub_rows_cases[where T = T and d = d and f = f and p = p])
    case leaf
    then show ?thesis by (auto simp: Let_def)
  next
    case (enum vs)
    then show ?thesis by (simp add: Let_def)
  next
    case (fields fs)
    have "\<And>g. add_sub_rows_depth n T (Suc d) g (p @ [field_base f]) =
                Inr (add_sub_rows T (Suc d) g (p @ [field_base f]))"
      using fields(1,3) Suc.prems by (intro Suc.IH unvisited_child) auto
    with fields show ?thesis by (simp add: Let_def)
  qed
qed

text \<open>
  C22. With more frames than there are schema types not yet on the path,
  \<open>buildMockJson\<close> run on a bounded stack never overflows and is equivalent to the
  measure-terminated model: it returns the same value, or throws the same
  \<open>TypeError\<close>.
\<close>

theorem build_mock_json_depth_equiv:
  "unvisited T p < n \<Longrightarrow> build_mock_json_depth n T f p = type_error_of (build_mock_json T f p)"
proof (induction n arbitrary: f p)
  case 0
  then show ?case by simp
next
  case (Suc n)
  show ?case
  proof (cases rule: build_mock_json_cases[where T = T and f = f and p = p])
    case (enum vs)
    then show ?thesis by (cases vs) (simp_all add: type_error_of_def)
  next
    case (fields fs)
    have "\<And>g. build_mock_json_depth n T g (p @ [field_base f]) =
                type_error_of (build_mock_json T g (p @ [field_base f]))"
      using fields(1,3) Suc.prems by (intro Suc.IH unvisited_child) auto
    with fields(1-3) have "build_mock_json_depth (Suc n) T f p =
        (case type_error_of (those (map (\<lambda>g. build_mock_json T g (p @ [field_base f])) fs)) of
           Inl e \<Rightarrow> Inl e
         | Inr vs \<Rightarrow> Inr (wrap_list (field_is_list f) (JObject (js_assign (zip (map fname fs) vs) []))))"
      by (simp add: Let_def seq_results_those)
    with fields(4) show ?thesis by (simp add: type_error_of_def split: option.split)
  qed (auto simp: type_error_of_def)
qed


text \<open>
  C21. Every \<open>addSubFields\<close> call the plugin makes (with \<open>path = []\<close>) returns, without a
  stack overflow, on a stack with more frames than the schema has type definitions, and
  pushes the rows of the terminating model.
\<close>

theorem add_sub_rows_depth_returns:
  "length T < n \<Longrightarrow> add_sub_rows_depth n T d f [] = Inr (add_sub_rows T d f [])"
  using unvisited_le_length[of T "[]"] by (intro add_sub_rows_depth_enough) simp

text \<open>
  C24. \<open>buildResponseSchema\<close> on a bounded stack: with more frames than there are schema
  types not yet on the path it returns, and returns the selection string (or
  \<open>undefined\<close>) of the measure-terminated model.
\<close>

theorem build_response_schema_depth_returns:
  "unvisited T p < n \<Longrightarrow> build_response_schema_depth n T f p = Inr (build_response_schema T f p)"
proof (induction n arbitrary: f p)
  case 0
  then show ?case by simp
next
  case (Suc n)
  show ?case
  proof (cases rule: build_response_schema_cases[where T = T and f = f and p = p])
    case (fields fs)
    have "\<And>g. build_response_schema_depth n T g (p @ [field_base f]) =
                Inr (build_response_schema T g (p @ [field_base f]))"
      using fields(1,3) Suc.prems by (intro Suc.IH unvisited_child) auto
    with fields show ?thesis by simp
  qed (auto simp: wrap_selection_def Let_def)
qed

end
