(* ===== verification/MarkdownTable.thy ===== *)
theory MarkdownTable
  imports FieldTable
begin

text \<open>
  What the rows of \<open>addSubFields\<close> are as Markdown. A pipe table row (GitHub Flavored
  Markdown) is one line, starts and ends with \<open>|\<close>, and its cells are the text between
  consecutive \<open>|\<close>; a \<open>|\<close> preceded by a backslash would not separate cells.
  \<open>md_cells\<close> reads a line as a row; \<open>md_cell_ok\<close> is what a cell's text must avoid to
  be read back unchanged (a \<open>|\<close>, a line break, a trailing backslash). The theorem is
  the well-formedness of the table: on a schema whose names, descriptions and enum
  texts are cell-safe, every line the renderer pushes reads back as exactly the four
  cells it was built from. GraphQL names are always safe; descriptions are free text
  (often multi-line block strings), and the plugin does not escape them.
\<close>

section \<open>Reading a line as a table row\<close>

fun split_bar :: "string \<Rightarrow> string list" where
  "split_bar [] = [[]]"
| "split_bar (c # cs) =
     (if c = CHR ''|'' then [] # split_bar cs
      else (case split_bar cs of w # ws \<Rightarrow> (c # w) # ws | [] \<Rightarrow> [[c]]))"

definition md_cells :: "string \<Rightarrow> string list option" where
  "md_cells line =
     (if CHR 0x0A \<in> set line \<or> CHR 0x0D \<in> set line then None
      else (case split_bar line of
              [] # rest \<Rightarrow> if rest \<noteq> [] \<and> last rest = [] then Some (butlast rest) else None
            | _ \<Rightarrow> None))"

definition md_cell_ok :: "string \<Rightarrow> bool" where
  "md_cell_ok s \<longleftrightarrow>
     CHR ''|'' \<notin> set s \<and> CHR 0x0A \<notin> set s \<and> CHR 0x0D \<notin> set s \<and> (s = [] \<or> last s \<noteq> CHR 0x5C)"

definition md_row_of :: "string list \<Rightarrow> string" where
  "md_row_of cells = ''|'' @ concat (map (\<lambda>c. c @ ''|'') cells)"

text \<open>The four cells of a row as the template literals of lines 21/23 fill them.\<close>

definition row_cells :: "table_row \<Rightarrow> string list" where
  "row_cells r =
     [js_pad_start [] (r_depth r) (CHR ''-'') @ r_name r,
      if r_array r then ''Array'' @ bslash @ ''<'' @ r_type r @ bslash @ ''>'' else r_type r,
      if r_array r then txt_no else if r_required r then txt_yes else txt_no,
      r_desc r]"

text \<open>The texts of a field and of a schema that reach the table.\<close>

definition field_text_ok :: "gql_field \<Rightarrow> bool" where
  "field_text_ok g \<longleftrightarrow>
     md_cell_ok (fname g) \<and> md_cell_ok (field_base g) \<and> md_cell_ok (js_or (fdescription g) [])"

definition table_safe :: "type_map \<Rightarrow> bool" where
  "table_safe T \<longleftrightarrow>
     (\<forall>(n, d) \<in> set T. case d of
        FieldsDef fs \<Rightarrow> (\<forall>g \<in> set fs. field_text_ok g)
      | EnumDef vs \<Rightarrow> md_cell_ok (enum_desc vs)
      | OtherDef \<Rightarrow> True)"

section \<open>Lemmas\<close>

lemma split_bar_cell:
  "CHR ''|'' \<notin> set c \<Longrightarrow> split_bar (c @ CHR ''|'' # rest) = c # split_bar rest"
  by (induction c) auto

lemma split_bar_md_row:
  assumes "\<forall>c \<in> set cells. CHR ''|'' \<notin> set c"
  shows "split_bar (md_row_of cells) = [] # cells @ [[]]"
proof -
  have "split_bar (concat (map (\<lambda>c. c @ ''|'') cells)) = cells @ [[]]"
    using assms by (induction cells) (simp_all add: split_bar_cell)
  then show ?thesis by (simp add: md_row_of_def)
qed

lemma md_cells_md_row_of:
  assumes "\<forall>c \<in> set cells. md_cell_ok c"
  shows "md_cells (md_row_of cells) = Some cells"
proof -
  have "\<forall>c \<in> set cells. CHR ''|'' \<notin> set c" using assms by (simp add: md_cell_ok_def)
  moreover have "CHR 0x0A \<notin> set (md_row_of cells) \<and> CHR 0x0D \<notin> set (md_row_of cells)"
    using assms by (auto simp: md_row_of_def md_cell_ok_def)
  ultimately show ?thesis by (simp add: md_cells_def split_bar_md_row)
qed

lemma render_row_md:
  "render_row r = md_row_of (row_cells r)"
  by (simp add: render_row_def row_cells_def md_row_of_def)

lemma md_cell_ok_append:
  "md_cell_ok a \<Longrightarrow> md_cell_ok b \<Longrightarrow> md_cell_ok (a @ b)"
  by (auto simp: md_cell_ok_def last_append)

lemma md_cell_ok_fixed:
  "md_cell_ok txt_yes" "md_cell_ok txt_no" "md_cell_ok (js_pad_start [] n (CHR ''-''))"
  "md_cell_ok t \<Longrightarrow> md_cell_ok (''Array'' @ bslash @ ''<'' @ t @ bslash @ ''>'')"
  by (auto simp: md_cell_ok_def txt_yes_def txt_no_def bslash_def)

lemma row_cells_ok:
  assumes "md_cell_ok (r_name r)" "md_cell_ok (r_type r)" "md_cell_ok (r_desc r)"
  shows "\<forall>c \<in> set (row_cells r). md_cell_ok c"
proof -
  have "md_cell_ok (js_pad_start [] (r_depth r) (CHR ''-'') @ r_name r)"
    by (rule md_cell_ok_append[OF md_cell_ok_fixed(3) assms(1)])
  moreover have "md_cell_ok (if r_array r then ''Array'' @ bslash @ ''<'' @ r_type r @ bslash @ ''>''
                             else r_type r)"
    using md_cell_ok_fixed(4)[OF assms(2)] assms(2) by simp
  moreover have "md_cell_ok (if r_array r then txt_no else if r_required r then txt_yes else txt_no)"
    using md_cell_ok_fixed(1,2) by simp
  ultimately show ?thesis using assms(3) unfolding row_cells_def by simp
qed

lemma table_safe_fields:
  "table_safe T \<Longrightarrow> map_of T n = Some (FieldsDef fs) \<Longrightarrow> g \<in> set fs \<Longrightarrow> field_text_ok g"
  unfolding table_safe_def by (fastforce dest: map_of_SomeD)

lemma table_safe_enum:
  "table_safe T \<Longrightarrow> map_of T n = Some (EnumDef vs) \<Longrightarrow> md_cell_ok (enum_desc vs)"
  unfolding table_safe_def by (fastforce dest: map_of_SomeD)

lemma add_sub_rows_text_ok:
  assumes "table_safe T" and "field_text_ok f" and "r \<in> set (add_sub_rows T d f p)"
  shows "md_cell_ok (r_name r) \<and> md_cell_ok (r_type r) \<and> md_cell_ok (r_desc r)"
  using assms
proof (induction T d f p rule: add_sub_rows_induct)
  case (step T d f p)
  from step.prems(3) show ?case
  proof (cases rule: add_sub_rows_member)
    case own
    with step.prems(2) show ?thesis by (simp add: field_text_ok_def)
  next
    case (enum vs)
    with step.prems(2) table_safe_enum[OF step.prems(1) enum(3)] show ?thesis
      by (simp add: field_text_ok_def md_cell_ok_append)
  next
    case (child fs g)
    show ?thesis
      using step.IH[OF child(1-4) step.prems(1) table_safe_fields[OF step.prems(1) child(3,4)] child(5)] .
  qed
qed

text \<open>
  C23. The table is well formed: on a schema whose texts are cell-safe, every line the
  renderer pushes is a single Markdown table row that reads back as exactly the four
  cells it was built from (indented name, type, required, description).
\<close>

theorem add_sub_rows_markdown:
  assumes "table_safe T" and "field_text_ok f" and "r \<in> set (add_sub_rows T d f p)"
  shows "md_cells (render_row r) = Some (row_cells r)"
proof -
  have "md_cell_ok (r_name r)" "md_cell_ok (r_type r)" "md_cell_ok (r_desc r)"
    using add_sub_rows_text_ok[OF assms] by simp_all
  then have "\<forall>c \<in> set (row_cells r). md_cell_ok c" by (rule row_cells_ok)
  then show ?thesis unfolding render_row_md by (rule md_cells_md_row_of)
qed

end
