(* ===== verification/Unfolding.thy ===== *)
theory Unfolding
  imports FieldTable MockJson ResponseShape
begin

text \<open>
  The abstract specification shared by the three walkers of \<open>src/index.js\<close>
  (\<open>addSubFields\<close>, \<open>buildMockJson\<close>, \<open>buildResponseSchema\<close>): the unfolding of the type
  graph from a field, a tree with one node per field visited, each node recording which
  branch the walk took there. A branch is cut where the base type is already on the
  node's own branch (each branch carries its own copy of the visit path), at builtin
  scalars and at names that are not object types. Each walker is a fold of this one tree:
  the table is its preorder rows (C26), the example value its \<open>mock_tree\<close> (C4) and the
  selection its \<open>shape_tree\<close> (C5). Each branch of the tree expands distinct schema
  types, so its depth is bounded by the number of types.
\<close>

text \<open>
  Which branch of the walk a node took: the base type is already on the branch
  (\<open>NCut\<close>), a builtin scalar, a name the type map lacks, an enum with its values, an
  object type (the node's children are its fields) or another named type.
\<close>

datatype node_kind = NCut | NScalar | NUnknown | NEnum "enum_value list" | NObject | NOther

datatype unfold_tree = UNode (node_field: gql_field) (node_kind: node_kind) "unfold_tree list"

function unfold :: "type_map \<Rightarrow> gql_field \<Rightarrow> string list \<Rightarrow> unfold_tree" where
  "unfold T f p =
     (let ty = field_base f
      in if ty \<in> set p then UNode f NCut []
         else if ty \<in> set builtin_scalars then UNode f NScalar []
         else (case map_of T ty of
                 None \<Rightarrow> UNode f NUnknown []
               | Some (EnumDef vs) \<Rightarrow> UNode f (NEnum vs) []
               | Some (FieldsDef fs) \<Rightarrow> UNode f NObject (map (\<lambda>g. unfold T g (p @ [ty])) fs)
               | Some OtherDef \<Rightarrow> UNode f NOther []))"
  by pat_completeness auto
termination
  by (relation "measure (\<lambda>(T, f, p). unvisited T p)") (auto simp: Let_def intro: unvisited_snoc_less)

text \<open>The rows of a tree: the node's row, its enum row, then the children's rows.\<close>

fun tree_rows :: "nat \<Rightarrow> unfold_tree \<Rightarrow> table_row list" where
  "tree_rows d (UNode f k cs) =
     field_row d f
     # (case k of NEnum vs \<Rightarrow> [(field_row d f)\<lparr>r_desc := r_desc (field_row d f) @ enum_desc vs\<rparr>] | _ \<Rightarrow> [])
     @ concat (map (tree_rows (Suc d)) cs)"

text \<open>
  The example value of a tree: \<open>undefined\<close> at a cut, the scalar stand-in, the first enum
  value (no value at all for an enum without values, the \<open>TypeError\<close>), an empty object
  for unknown and other names, and for an object the assignment of the children's
  examples under their field names; list fields wrap their value in a one-element array.
\<close>

fun mock_tree :: "unfold_tree \<Rightarrow> jval option" where
  "mock_tree (UNode f k cs) =
     (let l = field_is_list f
      in case k of
           NCut \<Rightarrow> Some JUndefined
         | NScalar \<Rightarrow> map_option (wrap_list l) (scalar_example (field_base f) (fdescription f))
         | NUnknown \<Rightarrow> Some (wrap_list l (JObject []))
         | NEnum [] \<Rightarrow> None
         | NEnum (v # _) \<Rightarrow> Some (wrap_list l (ev_value v))
         | NObject \<Rightarrow>
             (case those (map mock_tree cs) of
                None \<Rightarrow> None
              | Some vs \<Rightarrow> Some (wrap_list l (JObject (js_assign (zip (map (fname \<circ> node_field) cs) vs) []))))
         | NOther \<Rightarrow> Some (wrap_list l (JObject [])))"

text \<open>
  The selection of a tree: nothing at a cut, the name of a scalar (the empty string at
  the root), the empty string for unknown names and enums, and for an object or another
  named type its name with the brace block of the children's non-empty selections.
\<close>

fun shape_tree :: "bool \<Rightarrow> unfold_tree \<Rightarrow> string option" where
  "shape_tree root (UNode f k cs) =
     (case k of
        NCut \<Rightarrow> None
      | NScalar \<Rightarrow> Some (if root then [] else fname f)
      | NUnknown \<Rightarrow> Some []
      | NEnum _ \<Rightarrow> Some []
      | NObject \<Rightarrow>
          Some (wrap_selection root (fname f) (js_join '' '' (truthy_strings (map (shape_tree False) cs))))
      | NOther \<Rightarrow> Some (wrap_selection root (fname f) []))"

text \<open>The kinds of all nodes of a tree, in preorder.\<close>

fun tree_kinds :: "unfold_tree \<Rightarrow> node_kind list" where
  "tree_kinds (UNode f k cs) = k # concat (map tree_kinds cs)"

text \<open>The types expanded along each branch, from the root.\<close>

fun branches :: "unfold_tree \<Rightarrow> string list list" where
  "branches (UNode f k cs) =
     (if cs = [] then [[]] else map (Cons (field_base f)) (concat (map branches cs)))"

declare unfold.simps [simp del]

lemma unfold_cases:
  obtains (cut) "field_base f \<in> set p" "unfold T f p = UNode f NCut []"
  | (scalar) "field_base f \<notin> set p" "field_base f \<in> set builtin_scalars"
      "unfold T f p = UNode f NScalar []"
  | (unknown) "field_base f \<notin> set p" "field_base f \<notin> set builtin_scalars"
      "map_of T (field_base f) = None" "unfold T f p = UNode f NUnknown []"
  | (enum) vs where "field_base f \<notin> set p" "field_base f \<notin> set builtin_scalars"
      "map_of T (field_base f) = Some (EnumDef vs)" "unfold T f p = UNode f (NEnum vs) []"
  | (object) fs where "field_base f \<notin> set p" "field_base f \<notin> set builtin_scalars"
      "map_of T (field_base f) = Some (FieldsDef fs)"
      "unfold T f p = UNode f NObject (map (\<lambda>g. unfold T g (p @ [field_base f])) fs)"
  | (other) "field_base f \<notin> set p" "field_base f \<notin> set builtin_scalars"
      "map_of T (field_base f) = Some OtherDef" "unfold T f p = UNode f NOther []"
proof -
  note u = unfold.simps[of T f p, unfolded Let_def]
  show thesis
  proof (cases "field_base f \<in> set p")
    case True
    with u show thesis by (intro that(1)) simp_all
  next
    case nv: False
    show thesis
    proof (cases "field_base f \<in> set builtin_scalars")
      case True
      with nv u show thesis by (intro that(2)) simp_all
    next
      case nb: False
      show thesis
      proof (cases "map_of T (field_base f)")
        case None
        with nv nb u show thesis by (intro that(3)) simp_all
      next
        case (Some d)
        with nv nb u that(4-6) show thesis by (cases d) simp_all
      qed
    qed
  qed
qed

lemma scalar_example_builtin:
  "ty \<in> set builtin_scalars \<Longrightarrow> \<exists>v. scalar_example ty d = Some v"
  using scalar_example_None_iff[of ty d] by auto

lemma scalar_example_other:
  "ty \<notin> set builtin_scalars \<Longrightarrow> scalar_example ty d = None"
  by (simp add: scalar_example_None_iff)

lemma node_field_unfold [simp]: "node_field (unfold T f p) = f"
  by (cases rule: unfold_cases[where T = T and f = f and p = p]) simp_all

text \<open>
  C26. The field table refines the unfolding: the rows \<open>addSubFields(deep, field, path)\<close>
  pushes are the preorder rows of the unfolding tree of the field from \<open>path\<close>.
\<close>

theorem add_sub_rows_refines:
  "add_sub_rows T d f p = tree_rows d (unfold T f p)"
proof (induction T d f p rule: add_sub_rows_induct)
  case (step T d f p)
  show ?case
  proof (cases rule: add_sub_rows_cases[where T = T and d = d and f = f and p = p])
    case leaf
    then show ?thesis by (cases rule: unfold_cases[where T = T and f = f and p = p]) auto
  next
    case (enum vs)
    with enum(4) show ?thesis by (cases rule: unfold_cases[where T = T and f = f and p = p]) auto
  next
    case (fields fs)
    have "map (\<lambda>g. add_sub_rows T (Suc d) g (p @ [field_base f])) fs =
          map (\<lambda>g. tree_rows (Suc d) (unfold T g (p @ [field_base f]))) fs"
      using step.IH[OF fields(1-3)] by (rule map_cong[OF refl])
    with fields show ?thesis
      by (cases rule: unfold_cases[where T = T and f = f and p = p]) (auto simp: comp_def)
  qed
qed

text \<open>\<open>buildMockJson\<close> as the fold \<open>mock_tree\<close> of the unfolding tree.\<close>

lemma build_mock_json_unfold:
  "build_mock_json T f p = mock_tree (unfold T f p)"
proof (induction T f p rule: unfold.induct)
  case (1 T f p)
  note IH = "1.IH"[OF refl]
  show ?case
  proof (cases rule: unfold_cases[where T = T and f = f and p = p])
    case (object fs)
    have m: "map (\<lambda>g. build_mock_json T g (p @ [field_base f])) fs =
             map (\<lambda>g. mock_tree (unfold T g (p @ [field_base f]))) fs"
      using IH[of "FieldsDef fs" fs] object(1-3) by (intro map_cong) auto
    from object show ?thesis
      by (subst build_mock_json.simps)
         (simp add: m Let_def comp_def scalar_example_other split: option.split)
  qed (auto simp: build_mock_json.simps[of T f p] Let_def scalar_example_other scalar_example_None_iff
             scalar_example_builtin split: option.split list.split)
qed

text \<open>
  C4. The example synthesizer refines the unfolding: \<open>buildMockJson(field, path)\<close> is the
  example value of the unfolding tree of the field from \<open>path\<close>, errors included. In
  particular a field cut by the cycle guard gives \<open>undefined\<close> before any list wrapping.
\<close>

theorem build_mock_json_refines:
  "build_mock_json T f p = mock_tree (unfold T f p)"
  by (rule build_mock_json_unfold)

text \<open>
  C5. The response-shape synthesizer refines the unfolding: \<open>buildResponseSchema(field, path)\<close>
  is the selection of the unfolding tree of the field from \<open>path\<close>, the root being the
  call with the empty path. A field cut by the cycle guard selects nothing.
\<close>

theorem build_response_schema_refines:
  "build_response_schema T f p = shape_tree (p = []) (unfold T f p)"
proof (induction T f p rule: unfold.induct)
  case (1 T f p)
  note IH = "1.IH"[OF refl]
  show ?case
  proof (cases rule: unfold_cases[where T = T and f = f and p = p])
    case (object fs)
    have m: "map (\<lambda>g. build_response_schema T g (p @ [field_base f])) fs =
             map (\<lambda>g. shape_tree False (unfold T g (p @ [field_base f]))) fs"
      using IH[of "FieldsDef fs" fs] object(1-3) by (intro map_cong) auto
    from object show ?thesis by (subst build_response_schema.simps) (simp add: m comp_def)
  qed (simp_all add: build_response_schema.simps[of T f p])
qed

lemma unfold_branch_distinct:
  "distinct p \<Longrightarrow> b \<in> set (branches (unfold T f p)) \<Longrightarrow> distinct (p @ b) \<and> set b \<subseteq> fst ` set T"
proof (induction T f p arbitrary: b rule: unfold.induct)
  case (1 T f p)
  show ?case
  proof (cases rule: unfold_cases[where T = T and f = f and p = p])
    case (object fs)
    show ?thesis
    proof (cases "fs = []")
      case False
      with "1.prems"(2) object(4) obtain g b' where g: "g \<in> set fs" and b: "b = field_base f # b'"
        and b': "b' \<in> set (branches (unfold T g (p @ [field_base f])))" by auto
      have "distinct ((p @ [field_base f]) @ b') \<and> set b' \<subseteq> fst ` set T"
        using "1.IH"[OF refl, of "FieldsDef fs" fs g] "1.prems"(1) object(1-3) b' g by simp
      moreover have "field_base f \<in> fst ` set T"
        using object(3) by (metis domI dom_map_of_conv_image_fst)
      ultimately show ?thesis using b object(1) by simp
    qed (use "1.prems" object in simp)
  qed (use "1.prems" in simp_all)
qed

text \<open>
  In an unfolding tree a scalar node is a builtin scalar, so its stand-in exists: the
  example value of such a tree is missing exactly when one of its nodes is an enum
  without values.
\<close>

lemma mock_unfold_None_iff:
  "mock_tree (unfold T f p) = None \<longleftrightarrow> NEnum [] \<in> set (tree_kinds (unfold T f p))"
proof (induction T f p rule: unfold.induct)
  case (1 T f p)
  note IH = "1.IH"[OF refl]
  show ?case
  proof (cases rule: unfold_cases[where T = T and f = f and p = p])
    case (object fs)
    have "those (map mock_tree (map (\<lambda>g. unfold T g (p @ [field_base f])) fs)) = None \<longleftrightarrow>
          (\<exists>g \<in> set fs. NEnum [] \<in> set (tree_kinds (unfold T g (p @ [field_base f]))))"
    proof -
      have "\<And>g. g \<in> set fs \<Longrightarrow> None = mock_tree (unfold T g (p @ [field_base f])) \<longleftrightarrow>
                  NEnum [] \<in> set (tree_kinds (unfold T g (p @ [field_base f])))"
        using IH[of "FieldsDef fs" fs] object(1-3) by (metis (no_types))
      then show ?thesis by (auto simp: those_None_iff image_iff)
    qed
    with object(4) show ?thesis by (auto simp: Let_def split: option.split)
  next
    case (enum vs)
    then show ?thesis by (cases vs) simp_all
  qed (auto simp: scalar_example_builtin)
qed

text \<open>
  C8. \<open>buildMockJson(field, path)\<close> throws exactly when its walk reaches an enum without
  values: a field of the unfolding tree that is not cut, not a builtin scalar, and whose
  enum's \<open>_values\<close> is empty, so that \<open>_values[0].value\<close> raises the \<open>TypeError\<close>.
\<close>

theorem build_mock_json_None_iff:
  "build_mock_json T f p = None \<longleftrightarrow> NEnum [] \<in> set (tree_kinds (unfold T f p))"
  using mock_unfold_None_iff[of T f p] build_mock_json_unfold[of T f p] by simp

end
