(* ===== verification/PathArrays.thy ===== *)
theory PathArrays
  imports FieldTable
begin

text \<open>
  \<open>addSubFields\<close> as JavaScript runs it, with its effects on shared arrays written out.
  The output array \<open>lines\<close> (line 12) is shared by every call; the \<open>path\<close> argument is
  an array the callee mutates with \<open>path.push(type)\<close> (line 29), and each descent
  passes a fresh copy \<open>[...path]\<close> (line 46). The arrays live in an explicit store,
  addressed by position, which only grows. The walk spends one unit of fuel per
  nesting level; \<open>None\<close> is running out of fuel.

  The correctness theorem says that this literal reading appends to \<open>lines\<close> exactly the
  rows of the functional model \<open>add_sub_rows\<close>, run on the contents of the path array,
  that the caller's path array gains exactly the field's own type (or nothing when the
  type was already on it), and that every other array keeps its contents: the copies
  confine each branch's pushes to that branch, so no visit path leaks into a sibling.
\<close>

record js_heap =
  out_lines :: "string list"
  arrays :: "string list list"

text \<open>\<open>lines.push(s)\<close>, \<open>path.push(x)\<close> on the array at address \<open>r\<close>, and \<open>[...path]\<close>.\<close>

definition push_line :: "string \<Rightarrow> js_heap \<Rightarrow> js_heap" where
  "push_line s h = h\<lparr>out_lines := out_lines h @ [s]\<rparr>"

definition push_path :: "nat \<Rightarrow> string \<Rightarrow> js_heap \<Rightarrow> js_heap" where
  "push_path r x h = h\<lparr>arrays := (arrays h)[r := arrays h ! r @ [x]]\<rparr>"

definition copy_array :: "nat \<Rightarrow> js_heap \<Rightarrow> nat \<times> js_heap" where
  "copy_array r h = (length (arrays h), h\<lparr>arrays := arrays h @ [arrays h ! r]\<rparr>)"

text \<open>
  Lines 14--51: the row push, the cycle guard on the path array, the push of the type,
  the enum row, and the \<open>for ... in\<close> loop over the fields (\<open>add_fields_heap\<close>), each
  child getting a copy of the path array taken when it is called.
\<close>

fun add_sub_fields_heap ::
  "nat \<Rightarrow> type_map \<Rightarrow> nat \<Rightarrow> gql_field \<Rightarrow> nat \<Rightarrow> js_heap \<Rightarrow> js_heap option"
and add_fields_heap ::
  "nat \<Rightarrow> type_map \<Rightarrow> nat \<Rightarrow> nat \<Rightarrow> gql_field list \<Rightarrow> js_heap \<Rightarrow> js_heap option" where
  "add_sub_fields_heap 0 T deep f r h = None"
| "add_sub_fields_heap (Suc n) T deep f r h =
     (let row = field_row deep f; ty = r_type row; h1 = push_line (render_row row) h
      in if ty \<in> set (arrays h1 ! r) then Some h1
         else (let h2 = push_path r ty h1
               in if ty \<in> set builtin_scalars then Some h2
                  else (case map_of T ty of
                          None \<Rightarrow> Some h2
                        | Some (EnumDef vs) \<Rightarrow>
                            Some (push_line (render_row (row\<lparr>r_desc := r_desc row @ enum_desc vs\<rparr>)) h2)
                        | Some (FieldsDef fs) \<Rightarrow> add_fields_heap n T (Suc deep) r fs h2
                        | Some OtherDef \<Rightarrow> Some h2)))"
| "add_fields_heap n T deep r [] h = Some h"
| "add_fields_heap n T deep r (g # gs) h =
     (let (a, h1) = copy_array r h
      in case add_sub_fields_heap n T deep g a h1 of
           None \<Rightarrow> None
         | Some h2 \<Rightarrow> add_fields_heap n T deep r gs h2)"

section \<open>The loop over the fields\<close>

text \<open>
  Given that each child call with enough fuel behaves as the model, the loop appends the
  children's rows in order, leaves the caller's path array and every other earlier array
  unchanged, and only adds arrays (the copies) at the end of the store.
\<close>

lemma add_fields_heap_correct:
  assumes child: "\<And>g a h'. a < length (arrays h') \<Longrightarrow> unvisited T (arrays h' ! a) < n \<Longrightarrow>
            \<exists>new. add_sub_fields_heap n T d g a h' =
              Some \<lparr>out_lines = out_lines h' @ map render_row (add_sub_rows T d g (arrays h' ! a)),
                    arrays = (arrays h')[a := arrays h' ! a @
                               (if field_base g \<in> set (arrays h' ! a) then [] else [field_base g])] @ new\<rparr>"
    and r: "r < length (arrays h)" and fuel: "unvisited T (arrays h ! r) < n"
  shows "\<exists>new. add_fields_heap n T d r gs h =
           Some \<lparr>out_lines = out_lines h @ map render_row (concat (map (\<lambda>g. add_sub_rows T d g (arrays h ! r)) gs)),
                 arrays = arrays h @ new\<rparr>"
  using r fuel
proof (induction gs arbitrary: h)
  case Nil
  show ?case by (intro exI[of _ "[]"]) simp
next
  case (Cons g gs)
  let ?c = "arrays h ! r"
  let ?h1 = "h\<lparr>arrays := arrays h @ [?c]\<rparr>"
  let ?a = "length (arrays h)"
  obtain new1 where c1: "add_sub_fields_heap n T d g ?a ?h1 =
      Some \<lparr>out_lines = out_lines h @ map render_row (add_sub_rows T d g ?c),
            arrays = (arrays h @ [?c])[?a := ?c @ (if field_base g \<in> set ?c then [] else [field_base g])] @ new1\<rparr>"
    using child[of ?a ?h1] Cons.prems by auto
  let ?h2 = "\<lparr>out_lines = out_lines h @ map render_row (add_sub_rows T d g ?c),
             arrays = arrays h @ (?c @ (if field_base g \<in> set ?c then [] else [field_base g])) # new1\<rparr>"
  have r2: "r < length (arrays ?h2)" and c2: "arrays ?h2 ! r = ?c"
    using Cons.prems(1) by (simp_all add: nth_append)
  obtain new2 where "add_fields_heap n T d r gs ?h2 =
      Some \<lparr>out_lines = out_lines ?h2 @ map render_row (concat (map (\<lambda>g. add_sub_rows T d g ?c) gs)),
            arrays = arrays ?h2 @ new2\<rparr>"
    using Cons.IH[OF r2] c2 Cons.prems(2) by auto
  with c1 show ?case by (simp add: copy_array_def list_update_append)
qed

section \<open>Correctness\<close>

text \<open>
  C3. With more fuel than there are defined types not on the path, \<open>addSubFields(deep,
  field, path)\<close> run on the store returns; it appends to \<open>lines\<close> exactly the rows of
  \<open>add_sub_rows\<close> on the contents of \<open>path\<close>, pushes onto the caller's \<open>path\<close> array
  exactly the field's type (nothing when the cycle guard fires), keeps every other array,
  and only adds new arrays (the children's copies) at the end of the store.
\<close>

theorem add_sub_fields_heap_correct:
  assumes "r < length (arrays h)" and "unvisited T (arrays h ! r) < n"
  shows "\<exists>new. add_sub_fields_heap n T d f r h =
           Some \<lparr>out_lines = out_lines h @ map render_row (add_sub_rows T d f (arrays h ! r)),
                 arrays = (arrays h)[r := arrays h ! r @
                            (if field_base f \<in> set (arrays h ! r) then [] else [field_base f])] @ new\<rparr>"
  using assms
proof (induction n arbitrary: d f r h)
  case 0
  then show ?case by simp
next
  case (Suc n)
  let ?c = "arrays h ! r"
  let ?ty = "field_base f"
  let ?h1 = "push_line (render_row (field_row d f)) h"
  let ?h2 = "push_path r ?ty ?h1"
  have a1: "arrays ?h1 = arrays h" by (simp add: push_line_def)
  have a2: "arrays ?h2 = (arrays h)[r := ?c @ [?ty]]" by (simp add: push_path_def push_line_def)
  have o2: "out_lines ?h2 = out_lines h @ [render_row (field_row d f)]"
    by (simp add: push_path_def push_line_def)
  show ?case
  proof (cases rule: add_sub_rows_cases[where T = T and d = d and f = f and p = ?c])
    case leaf
    then show ?thesis
    proof (cases "?ty \<in> set ?c")
      case True
      with leaf show ?thesis by (intro exI[of _ "[]"]) (simp add: Let_def push_line_def)
    next
      case False
      with leaf have "add_sub_fields_heap (Suc n) T d f r h = Some ?h2"
        by (auto simp: Let_def a1 split: option.split type_def.split)
      with False leaf show ?thesis
        by (intro exI[of _ "[]"]) (simp add: push_path_def push_line_def)
    qed
  next
    case (enum vs)
    then show ?thesis by (intro exI[of _ "[]"]) (simp add: Let_def a1 push_path_def push_line_def)
  next
    case (fields fs)
    have r2: "r < length (arrays ?h2)" and c2: "arrays ?h2 ! r = ?c @ [?ty]"
      using Suc.prems(1) by (simp_all add: a2)
    have "unvisited T (?c @ [?ty]) < unvisited T ?c"
      by (rule unvisited_snoc_less[OF fields(3) fields(1)])
    then have fuel: "unvisited T (arrays ?h2 ! r) < n" using Suc.prems(2) c2 by simp
    obtain new where "add_fields_heap n T (Suc d) r fs ?h2 =
        Some \<lparr>out_lines = out_lines ?h2 @ map render_row
                 (concat (map (\<lambda>g. add_sub_rows T (Suc d) g (arrays ?h2 ! r)) fs)),
              arrays = arrays ?h2 @ new\<rparr>"
      using add_fields_heap_correct[OF Suc.IH r2 fuel] by blast
    with fields Suc.prems(1) show ?thesis by (intro exI[of _ new]) (simp add: Let_def a1 a2 o2)
  qed
qed

end
