(* ===== verification/Spec2Isabelle.thy ===== *)
theory Spec2Isabelle
  imports Plugin CallDepth MarkdownTable Unfolding PathArrays
begin

text \<open>
  \<^bold>\<open>A verification model of codegen-plugin-md.\<close>
  The repository is one graphql-codegen plugin, \<open>src/index.js\<close>. Its \<open>plugin(schema,
  documents, config)\<close> walks the root query fields of a GraphQL schema and prints, for
  each, a Markdown block: a table of the argument fields and one of the return type
  (\<open>addSubFields\<close>, lines 14--51), an example request whose query text comes from
  \<open>buildQueryInput\<close>/\<open>buildResponseSchema\<close> (lines 92--156) and whose variables come
  from \<open>buildMockJson\<close> (lines 54--90), and an example response (\<open>buildMockJson\<close> again).
  The three recursive walkers share no state except the output array \<open>lines\<close>: each
  receives the field and a visit path, pushes the field's base type onto that path and
  gives each child a copy of it. All three inline the same parsing of
  \<open>field.type.toString()\<close> into a base type name and a list flag, and stop at a base type
  already on the path.

  \<^bold>\<open>Theories.\<close>
  \<^item> \<open>Prelude\<close>: JavaScript values (\<open>jval\<close>) and the string and array primitives the
    plugin calls (\<open>js_replace\<close> = first-occurrence \<open>replace\<close>, \<open>js_starts_with\<close>,
    \<open>js_includes\<close>, \<open>js_pad_start\<close>, \<open>js_join\<close>, \<open>js_or\<close> = \<open>d || dflt\<close>,
    \<open>js_to_string\<close> = template interpolation, \<open>js_assign\<close> = successive \<open>obj[k] = v\<close>),
    their lemmas, and the measure \<open>unvisited T p\<close> (defined type names not on the path).
  \<^item> \<open>Schema\<close>: the graphql-js objects the plugin reads, modelled from the spec since
    they are not code of the repository: type references \<open>gql_type\<close> and their
    \<open>toString\<close> (\<open>type_to_string\<close>), fields \<open>gql_field\<close>, enum values, the type map
    \<open>type_map\<close> (looked up with \<open>map_of\<close> as \<open>types[name]\<close>, a definition being
    \<open>EnumDef\<close> for \<open>_values\<close>, \<open>FieldsDef\<close> for \<open>_fields\<close>, \<open>OtherDef\<close> for
    neither), GraphQL names (\<open>gql_name_ok\<close>) and the validity rule \<open>enums_nonempty\<close>.
  \<^item> \<open>TypeExpr\<close>: the inlined type resolver: \<open>parse_type\<close> (lines 55--58),
    \<open>base_type\<close> (lines 93--95), \<open>required_flag\<close> (line 16), \<open>builtin_scalars\<close>
    (lines 32/103). C11 shows it right on one-level references, C12 shows \<open>[T!]!\<close> keeps
    a \<open>!\<close>.
  \<^item> \<open>FieldTable\<close>: \<open>addSubFields\<close> as \<open>add_sub_rows\<close> (the rows a call pushes, as
    \<open>table_row\<close> records, in push order), \<open>render_row\<close> (the template literals),
    \<open>enum_desc\<close> (line 36) and \<open>add_sub_fields\<close> (the call's effect on \<open>lines\<close>).
    C2 bounds the indentation, C10 gives the enum rows, C13 the required column.
  \<^item> \<open>MockJson\<close>: \<open>buildMockJson\<close> as \<open>build_mock_json\<close>, returning \<open>jval option\<close>
    (\<open>None\<close> for the TypeError of \<open>_values[0].value\<close> on an enum with no values), with
    \<open>scalar_example\<close> (lines 66--73) and \<open>wrap_list\<close>. C1 is totality on valid
    schemas, C9 the object shape.
  \<^item> \<open>ResponseShape\<close>: \<open>buildResponseSchema\<close> as \<open>build_response_schema\<close>, returning
    \<open>string option\<close> (\<open>None\<close> for \<open>undefined\<close>), with the exact template whitespace
    (\<open>sel_block\<close>), the truthiness filter and the root/non-root wrapping. Its abstract
    specification is the selection tree \<open>select\<close> printed by \<open>print_sel\<close>; the
    refinement lemma \<open>shape_refines\<close> (below the root) and C6 (at the root) show the
    string is the printed tree, so no empty brace pair is ever emitted.
  \<^item> \<open>JsonText\<close>: \<open>JSON.stringify(v, undefined, 4)\<close> as \<open>json_ser\<close>/\<open>json_stringify\<close>
    (string escaping \<open>json_quote\<close>, members with \<open>undefined\<close> values dropped, \<open>null\<close>
    for \<open>undefined\<close> array elements, four-space indentation). It is the ECMAScript
    builtin, modelled for the values the plugin builds, not code of the repository.
  \<^item> \<open>Plugin\<close>: the orchestration (lines 9--13, 148--202): the fixed texts (their
    UTF-8 bytes checked against the source), \<open>build_query_input\<close> (\<open>buildQueryInput\<close>),
    \<open>build_variables\<close> (the \<open>map\<close>/\<open>reduce\<close> spread of lines 192--196),
    \<open>request_example\<close>, \<open>response_example\<close>, \<open>query_lines\<close> (one loop iteration, the
    \<open>lines\<close> array threaded through the \<open>add_sub_fields\<close> calls), \<open>plugin_queries\<close>
    (the \<open>for ... in\<close> loop, over the operations in declaration order) and \<open>plugin\<close>
    (\<open>None\<close> for no query type, then \<open>join_lines\<close>, line 202). C16 totality, C17 the
    exact failure condition, C18 the per-operation layout (no state passes between
    operations), C19 the variables object, C20 the query text of an operation without
    arguments.
  \<^item> \<open>CallDepth\<close>: the three walkers as JavaScript runs them, on a bounded call stack:
    \<open>add_sub_rows_depth\<close>, \<open>build_mock_json_depth\<close>, \<open>build_response_schema_depth\<close>
    take the number of frames left, a call with none left is a \<open>RangeError\<close>, and the
    exceptions are values of \<open>js_error + _\<close> (\<open>TypeError\<close> for \<open>_values[0]\<close>); sibling
    calls run left to right and the first exception aborts (\<open>seq_results\<close>). C21 and
    C24 say a stack of more frames than unvisited types is enough and the result is then
    the model's; C22 is the equivalence for \<open>buildMockJson\<close>, exceptions included.
  \<^item> \<open>MarkdownTable\<close>: a reader of Markdown pipe-table rows (\<open>split_bar\<close>,
    \<open>md_cells\<close>), the four cells of a rendered row (\<open>row_cells\<close>) and the cell-safety of
    texts (\<open>md_cell_ok\<close>, \<open>table_safe\<close>). C23: on a table-safe schema every rendered
    row reads back as exactly its four cells.
  \<^item> \<open>Unfolding\<close>: the abstract specification shared by the three walkers, the
    unfolding tree of the type graph from a field (\<open>unfold\<close>), each node recording the
    branch the walk takes there (\<open>node_kind\<close>: cut by the cycle guard, builtin scalar,
    unknown name, enum, object, other type), cut on each branch at the types already on
    that branch. Each walker is a fold of the one tree: C26, \<open>add_sub_rows\<close> is its
    preorder rows (\<open>tree_rows\<close>); C4, \<open>build_mock_json\<close> is its example value
    (\<open>mock_tree\<close>, the \<open>TypeError\<close> included); C5, \<open>build_response_schema\<close> is its
    selection (\<open>shape_tree\<close>). The cycle guard is the \<open>NCut\<close> node: one row, the value
    \<open>undefined\<close> before any list wrapping, no selection. C8: \<open>buildMockJson\<close> throws
    exactly when the tree has an enum node without values. \<open>unfold_branch_distinct\<close>:
    each branch expands distinct defined types.
  \<^item> \<open>PathArrays\<close>: \<open>addSubFields\<close> with its effects on JavaScript arrays written out
    (\<open>add_sub_fields_heap\<close>, \<open>add_fields_heap\<close>): a store of arrays (\<open>js_heap\<close>) with
    the shared \<open>lines\<close> and the path arrays, \<open>path.push(type)\<close> on the caller's array
    (\<open>push_path\<close>) and a fresh \<open>[...path]\<close> copy per child (\<open>copy_array\<close>), with one
    unit of fuel per nesting level. C3: with more fuel than unvisited types it returns,
    appends exactly the rows of \<open>add_sub_rows\<close>, extends the caller's path array by
    exactly the field's type, and keeps every other array: no visit path leaks between
    siblings, the invariant the spec's design notes single out.
  \<^item> This theory: the properties spanning the walkers, stated on the walkers themselves
    for every schema: C7, every child field the query selects is a key of the example
    object with a defined value; C25, the table rows one level down and the example
    object's keys name the same fields in the same order; C14, a \<open>[n!]!\<close> field is left
    unexpanded by all three walkers; C15, a field whose type is its parent's type is
    \<open>undefined\<close> in the example. The spec's examples (the \<open>getUser\<close> schema and others)
    are the inputs of the witnesses, one per theorem with hypotheses.

  \<^bold>\<open>Termination.\<close> The functional models need no fuel: each walker is a
  \<open>function\<close> whose termination is proved with the measure \<open>unvisited T path\<close>, which
  drops by one at every descent (the descent happens only for a defined name not yet on
  the path). The rows of the table are indented by at most that many levels (C2). The
  engine's stack is modelled separately (\<open>CallDepth\<close>): there the frame count is a fuel
  that counts nesting, not calls, and \<open>unvisited T p + 1\<close> frames (at most the number of
  type definitions plus one) are enough for every call (C21, C22, C24). \<open>PathArrays\<close>
  needs fuel because its recursion threads the store through the sibling calls; it
  spends one unit per nesting level, and more units than \<open>unvisited T p\<close> are enough
  (C3), by the same measure.

  \<^bold>\<open>Findings.\<close> The required flag tests for \<open>1\<close> instead of \<open>!\<close> (C13); a non-null
  list of non-null elements keeps a \<open>!\<close> in its base name (C12), so every walker treats
  it as an unknown name: no expansion in the table, the example \<open>[{}]\<close> instead of
  \<open>["X"]\<close>, nothing in the query selection (C14); the root call already puts the return
  type on the path, so a field whose type is its parent's type (the spec's \<open>friends\<close> of
  \<open>getUser\<close>) is never expanded, not even once, and is \<open>undefined\<close> in the example
  (C15, C4); enum fields get two rows, not an amended one (C10); an enum without values
  makes the plugin throw (C8, C17).

  Further, \<open>schema.getQueryType().getFields()\<close> (line 11) throws when the schema has no
  query type, so the \<open>if (queries)\<close> test of line 168 never fails (C17); an operation
  without arguments is printed as \<open>query search(){ data: name() ... }\<close>, which is not
  valid GraphQL (C20); descriptions are put into table cells unescaped, so only on a
  table-safe schema does every row read back as its four cells (C23): a \<open>|\<close> or a line
  break in a description breaks the Markdown table.

  \<^bold>\<open>Not modelled.\<close> The graphql-codegen framework that calls \<open>plugin\<close> and writes
  its result, and graphql-js's schema construction, are external: only their interface
  is modelled (\<open>Schema\<close>). The \<open>documents\<close> and \<open>config\<close> parameters are never read.
  Numbers are kept as their decimal text, as every number the plugin prints is a literal
  or an enum value taken from the schema. No JSON reader is modelled: the example bodies
  are specified by the values passed to \<open>JSON.stringify\<close>.
\<close>

section \<open>Examples from the spec\<close>

definition tags_field :: gql_field where
  "tags_field = \<lparr>fname = ''tags'', ftype = NonNull (ListOf (NonNull (Named ''String''))),
                 fdescription = Some ''X''\<rparr>"

definition ab_values :: "enum_value list" where
  "ab_values = [\<lparr>ev_value = JNumber ''1'', ev_name = ''A'', ev_description = None\<rparr>,
                \<lparr>ev_value = JNumber ''2'', ev_name = ''B'', ev_description = None\<rparr>]"

definition status_schema :: type_map where
  "status_schema = [(''Status'', EnumDef ab_values)]"

definition empty_enum_schema :: type_map where
  "empty_enum_schema = [(''E'', EnumDef [])]"

definition e_field :: gql_field where
  "e_field = \<lparr>fname = ''e'', ftype = Named ''E'', fdescription = None\<rparr>"

definition id_field :: gql_field where
  "id_field = \<lparr>fname = ''id'', ftype = NonNull (Named ''Int''), fdescription = None\<rparr>"

definition friends_field :: gql_field where
  "friends_field = \<lparr>fname = ''friends'', ftype = ListOf (Named ''User''), fdescription = None\<rparr>"

definition user_fields :: "gql_field list" where
  "user_fields =
     [id_field, \<lparr>fname = ''name'', ftype = Named ''String'', fdescription = None\<rparr>, friends_field]"

definition user_schema :: type_map where
  "user_schema = [(''User'', FieldsDef user_fields)]"

definition get_user :: gql_query where
  "get_user =
     \<lparr>qfield = \<lparr>fname = ''getUser'', ftype = NonNull (Named ''User''), fdescription = None\<rparr>,
      qargs = [\<lparr>fname = ''id'', ftype = NonNull (Named ''Int''), fdescription = None\<rparr>]\<rparr>"

definition status_field :: gql_field where
  "status_field = \<lparr>fname = ''status'', ftype = Named ''Status'', fdescription = None\<rparr>"

definition no_arg_query :: gql_query where
  "no_arg_query = \<lparr>qfield = e_field, qargs = []\<rparr>"

lemmas example_defs = user_schema_def user_fields_def get_user_def id_field_def friends_field_def
  tags_field_def status_schema_def ab_values_def status_field_def empty_enum_schema_def e_field_def

lemma add_sub_rows_depth_ge:
  "r \<in> set (add_sub_rows T d f p) \<Longrightarrow> d \<le> r_depth r"
proof (induction T d f p rule: add_sub_rows_induct)
  case (step T d f p)
  from step.prems show ?case
  proof (cases rule: add_sub_rows_member)
    case (child fs g)
    from step.IH[OF child(1-4) child(5)] show ?thesis by simp
  qed simp_all
qed

lemma add_sub_rows_top_names:
  "remdups (map r_name (filter (\<lambda>r. r_depth r = d) (add_sub_rows T d g p))) = [fname g]"
proof (cases rule: add_sub_rows_cases[where T = T and d = d and f = g and p = p])
  case (fields fs)
  have "filter (\<lambda>r. r_depth r = d) (concat (map (\<lambda>h. add_sub_rows T (Suc d) h (p @ [field_base g])) fs)) = []"
    by (auto simp: filter_empty_conv dest: add_sub_rows_depth_ge)
  with fields(4) show ?thesis by simp
qed simp_all

lemma remdups_block:
  "set ys = {n} \<Longrightarrow> n \<notin> set zs \<Longrightarrow> remdups (ys @ zs) = n # remdups zs"
proof (induction ys)
  case (Cons y ys)
  then show ?case by (cases ys) auto
qed simp

lemma remdups_concat_blocks:
  assumes "\<forall>x \<in> set xs. remdups (h x) = [k x]" and "distinct (map k xs)"
  shows "remdups (concat (map h xs)) = map k xs"
  using assms
proof (induction xs)
  case (Cons x xs)
  have sets: "\<forall>y \<in> set (x # xs). set (h y) = {k y}"
    using Cons.prems(1) by (metis empty_set list.simps(15) set_remdups)
  then have "k x \<notin> set (concat (map h xs))" using Cons.prems(2) by auto
  with sets have "remdups (h x @ concat (map h xs)) = k x # remdups (concat (map h xs))"
    by (intro remdups_block) simp_all
  with Cons show ?case by simp
qed simp


text \<open>
  C25. Across components: the documentation table and the example response list the
  same fields. For an object-typed, non-list field, the names of the table rows one
  level below it, duplicates removed (an enum-typed field has two rows), are the keys of
  its example object, in the same order.
\<close>

theorem table_example_fields_agree:
  assumes vis: "field_base f \<notin> set p" and bi: "field_base f \<notin> set builtin_scalars"
    and fs: "map_of T (field_base f) = Some (FieldsDef fs)" and dist: "distinct (map fname fs)"
    and single: "\<not> field_is_list f" and ex: "build_mock_json T f p = Some (JObject obj)"
  shows "remdups (map r_name (filter (\<lambda>r. r_depth r = Suc d) (add_sub_rows T d f p))) = map fst obj"
proof -
  let ?P = "\<lambda>r. r_depth r = Suc d"
  let ?child = "\<lambda>g. add_sub_rows T (Suc d) g (p @ [field_base f])"
  have "map r_name (filter ?P (add_sub_rows T d f p)) = concat (map (\<lambda>g. map r_name (filter ?P (?child g))) fs)"
    by (simp add: add_sub_rows_fields[OF vis bi fs] filter_concat map_concat comp_def)
  then have table: "remdups (map r_name (filter ?P (add_sub_rows T d f p))) = map fname fs"
    using dist by (simp add: remdups_concat_blocks add_sub_rows_top_names)
  have sc: "scalar_example (field_base f) (fdescription f) = None"
    using bi by (simp add: scalar_example_None_iff)
  from ex mock_fields[OF vis sc fs] obtain vs
    where th: "those (map (\<lambda>g. build_mock_json T g (p @ [field_base f])) fs) = Some vs"
      and obj: "JObject obj = wrap_list (field_is_list f) (JObject (js_assign (zip (map fname fs) vs) []))"
    by (auto split: option.splits)
  from th have "length vs = length (map fname fs)" by (simp add: those_Some_iff) (metis length_map)
  with obj single dist have "obj = zip (map fname fs) vs" by (simp add: wrap_list_def js_assign_fresh)
  with \<open>length vs = length (map fname fs)\<close> table show ?thesis by simp
qed

text \<open>
  A field whose selection is non-empty has a defined example: the three cases the
  response-shape walker selects (a scalar below the root, another named type, an object)
  are the cases in which the example synthesizer does not return \<open>undefined\<close>.
\<close>

lemma selected_has_value:
  assumes "build_response_schema T g q = Some s" and "s \<noteq> []" and "build_mock_json T g q = Some u"
  shows "u \<noteq> JUndefined"
proof (cases rule: build_response_schema_cases[where T = T and f = g and p = q])
  case visited
  with assms(1) show ?thesis by simp
next
  case leaf
  show ?thesis
  proof (cases "scalar_example (field_base g) (fdescription g)")
    case (Some w)
    with leaf(1) assms(3) have "u = wrap_list (field_is_list g) w" by (simp add: mock_scalar)
    then show ?thesis using wrap_list_defined[OF scalar_example_defined[OF Some]] by simp
  next
    case None
    with leaf(2) have "map_of T (field_base g) = Some OtherDef" by (simp add: scalar_example_None_iff)
    with None leaf(1) assms(3) show ?thesis by (auto simp: mock_other wrap_list_def split: if_splits)
  qed
next
  case empty
  with assms(1,2) show ?thesis by simp
next
  case (fields fs)
  have "scalar_example (field_base g) (fdescription g) = None"
    using fields(2) by (simp add: scalar_example_None_iff)
  with fields(1,3) assms(3) show ?thesis by (auto simp: mock_fields wrap_list_def split: option.splits if_splits)
qed

lemma bang_name_not_builtin: "n @ ''!'' \<notin> set builtin_scalars"
  by (auto simp: builtin_scalars_def dest: arg_cong[where f = last])

lemma bang_name_undefined:
  assumes "\<forall>m \<in> fst ` set T. gql_name_ok m"
  shows "map_of T (n @ ''!'') = None"
proof (rule ccontr)
  assume "map_of T (n @ ''!'') \<noteq> None"
  then obtain d where "(n @ ''!'', d) \<in> set T" by (auto dest: map_of_SomeD)
  then have "gql_name_ok (n @ ''!'')" using assms by force
  moreover have "\<not> name_char CHR ''!''" by (simp add: name_char_def name_start_char_def)
  ultimately show False by (simp add: gql_name_ok_def)
qed

text \<open>
  C7. Across components: every child field that the query selects appears in the example
  response. For an object-typed field with distinct field names, a field of the type whose
  own selection is non-empty (so it is kept by the parent's filter and printed in the
  query) is a member of the parent's example object with a defined value, so
  \<open>JSON.stringify\<close> prints it in the response example.
\<close>

theorem selection_in_example:
  assumes vis: "field_base f \<notin> set p" and bi: "field_base f \<notin> set builtin_scalars"
    and fs: "map_of T (field_base f) = Some (FieldsDef fs)" and dist: "distinct (map fname fs)"
    and ex: "build_mock_json T f p = Some v" and g: "g \<in> set fs"
    and sel: "build_response_schema T g (p @ [field_base f]) = Some s" and ne: "s \<noteq> []"
  shows "\<exists>obj u. v = wrap_list (field_is_list f) (JObject obj) \<and> map_of obj (fname g) = Some u
           \<and> u \<noteq> JUndefined"
proof -
  have sc: "scalar_example (field_base f) (fdescription f) = None"
    using bi by (simp add: scalar_example_None_iff)
  obtain obj u where "v = wrap_list (field_is_list f) (JObject obj)" and "map_of obj (fname g) = Some u"
    and m: "build_mock_json T g (p @ [field_base f]) = Some u"
    using mock_object_member[OF vis sc fs dist g ex] by blast
  moreover have "u \<noteq> JUndefined" using selected_has_value[OF sel ne m] .
  ultimately show ?thesis by blast
qed

text \<open>
  C15. A field of an object type whose own base type is that type is never expanded,
  not even once: it contributes nothing to the parent's query selection, and its member
  of the example object is \<open>undefined\<close> (which \<open>JSON.stringify\<close> omits). At the root
  this is the spec's \<open>getUser\<close> example, where the spec expects \<open>friends\<close> to be
  expanded one level.
\<close>

theorem self_field_undefined:
  assumes vis: "field_base f \<notin> set p" and bi: "field_base f \<notin> set builtin_scalars"
    and fs: "map_of T (field_base f) = Some (FieldsDef fs)" and dist: "distinct (map fname fs)"
    and g: "g \<in> set fs" and self: "field_base g = field_base f" and ex: "build_mock_json T f p = Some v"
  shows "build_response_schema T g (p @ [field_base f]) = None
         \<and> (\<exists>obj. v = wrap_list (field_is_list f) (JObject obj) \<and> map_of obj (fname g) = Some JUndefined)"
proof -
  have sc: "scalar_example (field_base f) (fdescription f) = None"
    using bi by (simp add: scalar_example_None_iff)
  obtain obj u where "v = wrap_list (field_is_list f) (JObject obj)" and "map_of obj (fname g) = Some u"
    and m: "build_mock_json T g (p @ [field_base f]) = Some u"
    using mock_object_member[OF vis sc fs dist g ex] by blast
  moreover have "build_mock_json T g (p @ [field_base f]) = Some JUndefined"
    using self by (simp add: build_mock_json_visited)
  moreover have "build_response_schema T g (p @ [field_base f]) = None"
    using self by (simp add: build_response_schema_visited)
  ultimately show ?thesis using m by auto
qed

text \<open>
  C14. A field of type \<open>[n!]!\<close> on a schema whose type names are GraphQL names is
  treated by all three walkers as a name the schema lacks, because its base name keeps a
  \<open>!\<close>: the table shows its row and nothing below it, its example is \<open>[{}]\<close> whatever
  \<open>n\<close> is, and it is left out of the query selection.
\<close>

theorem non_null_list_unexpanded:
  assumes ty: "ftype f = NonNull (ListOf (NonNull (Named n)))" and n: "gql_name_ok n"
    and names: "\<forall>m \<in> fst ` set T. gql_name_ok m" and vis: "n @ ''!'' \<notin> set p"
  shows "add_sub_rows T d f p = [field_row d f] \<and> build_mock_json T f p = Some (JArray [JObject []])
         \<and> build_response_schema T f p = Some []"
proof -
  have b: "field_base f = n @ ''!''" and l: "field_is_list f"
    using n ty by (simp_all add: field_base_def field_is_list_def parse_unfold)
  have u: "map_of T (field_base f) = None" using bang_name_undefined[OF names] b by simp
  have bi: "field_base f \<notin> set builtin_scalars" using b bang_name_not_builtin by simp
  then have sc: "scalar_example (field_base f) (fdescription f) = None"
    by (simp add: scalar_example_None_iff)
  have vis': "field_base f \<notin> set p" using vis b by simp
  show ?thesis
    using add_sub_rows_unknown[OF u] mock_unknown[OF vis' sc u] shape_unknown[OF vis' bi u] l
    by (simp add: wrap_list_def)
qed

theorem build_mock_json_total_witness:
  "enums_nonempty user_schema \<and> (\<exists>v. build_mock_json user_schema (qfield get_user) [] = Some v)"
proof -
  have h: "enums_nonempty user_schema" by (simp add: enums_nonempty_def user_schema_def)
  show ?thesis using h MockJson.build_mock_json_total[OF h] by blast
qed

theorem add_sub_rows_depth_bound_witness:
  "field_row 1 id_field \<in> set (add_sub_rows user_schema 0 (qfield get_user) [])
   \<and> 0 \<le> r_depth (field_row 1 id_field)
   \<and> r_depth (field_row 1 id_field) \<le> 0 + unvisited user_schema []"
proof -
  have h: "field_row 1 id_field \<in> set (add_sub_rows user_schema 0 (qfield get_user) [])"
    unfolding example_defs by code_simp
  show ?thesis using h FieldTable.add_sub_rows_depth_bound[OF h] by blast
qed

theorem build_response_schema_root_witness:
  "fields_named user_schema \<and>
   build_response_schema user_schema (qfield get_user) [] =
     Some (case select user_schema (qfield get_user) [] of
             None \<Rightarrow> []
           | Some (Sel n cs) \<Rightarrow> if cs = [] then [] else sel_block (js_join '' '' (map print_sel cs)))"
proof -
  have h: "fields_named user_schema"
    unfolding fields_named_def example_defs by auto
  show ?thesis using h ResponseShape.build_response_schema_root[OF h] by blast
qed

theorem build_mock_json_object_witness:
  "field_base (qfield get_user) \<notin> set [] \<and>
   scalar_example (field_base (qfield get_user)) (fdescription (qfield get_user)) = None \<and>
   map_of user_schema (field_base (qfield get_user)) = Some (FieldsDef user_fields) \<and>
   distinct (map fname user_fields) \<and>
   build_mock_json user_schema (qfield get_user) [] =
     Some (JObject [(''id'', JNumber ''1''), (''name'', JString ''String''), (''friends'', JUndefined)]) \<and>
   (\<exists>vs. JObject [(''id'', JNumber ''1''), (''name'', JString ''String''), (''friends'', JUndefined)]
          = wrap_list (field_is_list (qfield get_user)) (JObject (zip (map fname user_fields) vs))
        \<and> map Some vs = map (\<lambda>g. build_mock_json user_schema g ([] @ [field_base (qfield get_user)])) user_fields)"
proof -
  have h1: "field_base (qfield get_user) \<notin> set []" by simp
  have h2: "scalar_example (field_base (qfield get_user)) (fdescription (qfield get_user)) = None"
    unfolding example_defs by code_simp
  have h3: "map_of user_schema (field_base (qfield get_user)) = Some (FieldsDef user_fields)"
    unfolding user_schema_def get_user_def by code_simp
  have h4: "distinct (map fname user_fields)"
    unfolding example_defs by code_simp
  have h5: "build_mock_json user_schema (qfield get_user) [] =
     Some (JObject [(''id'', JNumber ''1''), (''name'', JString ''String''), (''friends'', JUndefined)])"
    unfolding example_defs by code_simp
  show ?thesis using h1 h2 h3 h4 h5 MockJson.build_mock_json_object[OF h1 h2 h3 h4 h5] by blast
qed

theorem add_sub_fields_enum_witness:
  "field_base status_field \<notin> set [] \<and> field_base status_field \<notin> set builtin_scalars \<and>
   map_of status_schema (field_base status_field) = Some (EnumDef ab_values) \<and>
   add_sub_fields status_schema 0 status_field [] [] =
     [] @ [render_row (field_row 0 status_field),
           render_row ((field_row 0 status_field)\<lparr>r_desc := r_desc (field_row 0 status_field) @ enum_desc ab_values\<rparr>)]"
proof -
  have h1: "field_base status_field \<notin> set []" by simp
  have h2: "field_base status_field \<notin> set builtin_scalars"
    unfolding example_defs builtin_scalars_def by code_simp
  have h3: "map_of status_schema (field_base status_field) = Some (EnumDef ab_values)"
    unfolding status_schema_def status_field_def by code_simp
  show ?thesis using h1 h2 h3 FieldTable.add_sub_fields_enum[OF h1 h2 h3] by blast
qed

theorem parse_type_one_level_witness:
  "gql_name_ok (gql_base (ListOf (NonNull (Named ''User'')))) \<and>
   wf_gql_type (ListOf (NonNull (Named ''User''))) \<and>
   list_depth (ListOf (NonNull (Named ''User''))) \<le> 1 \<and>
   (\<forall>u. ListOf (NonNull (Named ''User'')) \<noteq> NonNull (ListOf (NonNull u))) \<and>
   parse_type (type_to_string (ListOf (NonNull (Named ''User'')))) = (''User'', True)"
proof -
  have h1: "gql_name_ok (gql_base (ListOf (NonNull (Named ''User''))))"
    by code_simp
  have h2: "wf_gql_type (ListOf (NonNull (Named ''User'')))" by simp
  have h3: "list_depth (ListOf (NonNull (Named ''User''))) \<le> 1" by simp
  have h4: "\<forall>u. ListOf (NonNull (Named ''User'')) \<noteq> NonNull (ListOf (NonNull u))" by simp
  show ?thesis using h1 h2 h3 h4 TypeExpr.parse_type_one_level[OF h1 h2 h3 h4] by simp
qed

theorem parse_type_non_null_list_non_null_witness:
  "gql_name_ok ''String'' \<and>
   parse_type (type_to_string (NonNull (ListOf (NonNull (Named ''String''))))) = (''String!'', True)"
proof -
  have h: "gql_name_ok ''String''" by code_simp
  show ?thesis using h TypeExpr.parse_type_non_null_list_non_null[OF h] by simp
qed

theorem render_field_row_not_required_witness:
  "CHR ''1'' \<notin> set (gql_base (ftype id_field)) \<and> \<not> field_is_list id_field \<and>
   render_row (field_row 1 id_field) = ''|-id|Int|'' @ txt_no @ ''||''"
proof -
  have h1: "CHR ''1'' \<notin> set (gql_base (ftype id_field))" by (simp add: id_field_def)
  have h2: "\<not> field_is_list id_field" unfolding id_field_def field_is_list_def by code_simp
  have "field_base id_field = ''Int''" unfolding id_field_def field_base_def by code_simp
  then show ?thesis using h1 h2 FieldTable.render_field_row_not_required[OF h1 h2, of 1]
    by (simp add: id_field_def)
qed

theorem plugin_total_witness:
  "enums_nonempty user_schema \<and> (\<exists>out. plugin user_schema (Some [(''getUser'', get_user)]) = Some out)"
proof -
  have h: "enums_nonempty user_schema" by (simp add: enums_nonempty_def user_schema_def)
  show ?thesis using h Plugin.plugin_total[OF h] by blast
qed

theorem plugin_None_iff_witness:
  "plugin empty_enum_schema (Some [(''e'', no_arg_query)]) = None"
  by (subst Plugin.plugin_None_iff) (simp add: no_arg_query_def empty_enum_schema_def e_field_def, code_simp)

theorem plugin_layout_witness:
  "plugin user_schema (Some []) = Some doc_header"
  using Plugin.plugin_layout[of user_schema "[]"] by simp

theorem build_variables_args_witness:
  "distinct (map fname (qargs get_user))
   \<and> build_variables user_schema (qargs get_user) = Some [(''id'', JNumber ''1'')]
   \<and> (\<exists>vs. [(''id'', JNumber ''1'')] = zip (map fname (qargs get_user)) vs
        \<and> map Some vs = map (\<lambda>a. build_mock_json user_schema a []) (qargs get_user))"
proof -
  have d: "distinct (map fname (qargs get_user))" by (simp add: get_user_def)
  have v: "build_variables user_schema (qargs get_user) = Some [(''id'', JNumber ''1'')]"
    unfolding example_defs build_variables_def by code_simp
  show ?thesis using d v Plugin.build_variables_args[OF d v] by blast
qed

theorem build_query_input_no_args_witness:
  "qargs no_arg_query = []
   \<and> (\<exists>rest. build_query_input empty_enum_schema no_arg_query =
        nl @ spaces 16 @ ''query search(){'' @ nl @ spaces 20 @ ''data: '' @ fname (qfield no_arg_query)
        @ ''() '' @ rest)"
proof -
  have h: "qargs no_arg_query = []" by (simp add: no_arg_query_def)
  show ?thesis using h Plugin.build_query_input_no_args[OF h] by blast
qed

theorem add_sub_rows_depth_returns_witness:
  "length user_schema < 2
   \<and> add_sub_rows_depth 2 user_schema 0 (qfield get_user) [] = Inr (add_sub_rows user_schema 0 (qfield get_user) [])"
proof -
  have h: "length user_schema < 2" by (simp add: user_schema_def)
  show ?thesis using h CallDepth.add_sub_rows_depth_returns[OF h] by blast
qed

theorem build_mock_json_depth_equiv_witness:
  "unvisited user_schema [] < 2
   \<and> build_mock_json_depth 2 user_schema (qfield get_user) [] = type_error_of (build_mock_json user_schema (qfield get_user) [])"
proof -
  have h: "unvisited user_schema [] < 2" by (simp add: unvisited_def user_schema_def)
  show ?thesis using h CallDepth.build_mock_json_depth_equiv[OF h] by blast
qed

theorem add_sub_rows_markdown_witness:
  "table_safe user_schema \<and> field_text_ok (qfield get_user)
   \<and> field_row 1 id_field \<in> set (add_sub_rows user_schema 0 (qfield get_user) [])
   \<and> md_cells (render_row (field_row 1 id_field)) = Some (row_cells (field_row 1 id_field))"
proof -
  have s: "table_safe user_schema" unfolding example_defs table_safe_def field_text_ok_def by code_simp
  have f: "field_text_ok (qfield get_user)" unfolding example_defs field_text_ok_def by code_simp
  have m: "field_row 1 id_field \<in> set (add_sub_rows user_schema 0 (qfield get_user) [])"
    unfolding example_defs by code_simp
  show ?thesis using s f m MarkdownTable.add_sub_rows_markdown[OF s f m] by blast
qed

theorem build_response_schema_depth_returns_witness:
  "unvisited user_schema [] < 2
   \<and> build_response_schema_depth 2 user_schema (qfield get_user) [] =
       Inr (build_response_schema user_schema (qfield get_user) [])"
proof -
  have h: "unvisited user_schema [] < 2" by (simp add: unvisited_def user_schema_def)
  show ?thesis using h CallDepth.build_response_schema_depth_returns[OF h] by blast
qed

theorem table_example_fields_agree_witness:
  "field_base (qfield get_user) \<notin> set [] \<and> field_base (qfield get_user) \<notin> set builtin_scalars
   \<and> map_of user_schema (field_base (qfield get_user)) = Some (FieldsDef user_fields)
   \<and> distinct (map fname user_fields) \<and> \<not> field_is_list (qfield get_user)
   \<and> build_mock_json user_schema (qfield get_user) [] =
       Some (JObject [(''id'', JNumber ''1''), (''name'', JString ''String''), (''friends'', JUndefined)])
   \<and> remdups (map r_name (filter (\<lambda>r. r_depth r = Suc 0) (add_sub_rows user_schema 0 (qfield get_user) [])))
       = [''id'', ''name'', ''friends'']"
proof -
  have h1: "field_base (qfield get_user) \<notin> set []" by simp
  have h2: "field_base (qfield get_user) \<notin> set builtin_scalars"
    unfolding get_user_def field_base_def builtin_scalars_def by code_simp
  have h3: "map_of user_schema (field_base (qfield get_user)) = Some (FieldsDef user_fields)"
    unfolding get_user_def user_schema_def field_base_def by code_simp
  have h4: "distinct (map fname user_fields)" unfolding example_defs by simp
  have h5: "\<not> field_is_list (qfield get_user)" unfolding get_user_def field_is_list_def by code_simp
  have h6: "build_mock_json user_schema (qfield get_user) [] =
       Some (JObject [(''id'', JNumber ''1''), (''name'', JString ''String''), (''friends'', JUndefined)])"
    unfolding example_defs by code_simp
  show ?thesis using h1 h2 h3 h4 h5 h6 table_example_fields_agree[OF h1 h2 h3 h4 h5 h6, of 0]
    by simp
qed

theorem add_sub_fields_heap_correct_witness:
  "0 < length (arrays \<lparr>out_lines = [], arrays = [[]]\<rparr>)
   \<and> unvisited user_schema (arrays \<lparr>out_lines = [], arrays = [[]]\<rparr> ! 0) < 2
   \<and> (\<exists>new. add_sub_fields_heap 2 user_schema 0 (qfield get_user) 0 \<lparr>out_lines = [], arrays = [[]]\<rparr> =
        Some \<lparr>out_lines = map render_row (add_sub_rows user_schema 0 (qfield get_user) []),
              arrays = [[''User'']] @ new\<rparr>)"
proof -
  have a: "0 < length (arrays \<lparr>out_lines = [], arrays = [[]]\<rparr>)" by simp
  have b: "unvisited user_schema (arrays \<lparr>out_lines = [], arrays = [[]]\<rparr> ! 0) < 2"
    unfolding example_defs unvisited_def by simp
  have fb: "field_base (qfield get_user) = ''User''"
    unfolding example_defs by code_simp
  show ?thesis using a b PathArrays.add_sub_fields_heap_correct[OF a b, of 0 "qfield get_user"] fb
    by simp
qed

theorem selection_in_example_witness:
  "field_base (qfield get_user) \<notin> set [] \<and> field_base (qfield get_user) \<notin> set builtin_scalars \<and>
   map_of user_schema (field_base (qfield get_user)) = Some (FieldsDef user_fields) \<and>
   distinct (map fname user_fields) \<and>
   build_mock_json user_schema (qfield get_user) [] = Some (JObject [(''id'', JNumber ''1''), (''name'', JString ''String''), (''friends'', JUndefined)]) \<and>
   id_field \<in> set user_fields \<and>
   build_response_schema user_schema id_field ([] @ [field_base (qfield get_user)]) = Some ''id'' \<and>
   ''id'' \<noteq> [] \<and>
   (\<exists>obj u. JObject [(''id'', JNumber ''1''), (''name'', JString ''String''), (''friends'', JUndefined)] = wrap_list (field_is_list (qfield get_user)) (JObject obj)
      \<and> map_of obj (fname id_field) = Some u \<and> u \<noteq> JUndefined)"
proof -
  have h1: "field_base (qfield get_user) \<notin> set []" by simp
  have h2: "field_base (qfield get_user) \<notin> set builtin_scalars"
    unfolding example_defs by code_simp
  have h3: "map_of user_schema (field_base (qfield get_user)) = Some (FieldsDef user_fields)"
    unfolding user_schema_def get_user_def by code_simp
  have h4: "distinct (map fname user_fields)"
    unfolding example_defs by code_simp
  have h5: "build_mock_json user_schema (qfield get_user) [] = Some (JObject [(''id'', JNumber ''1''), (''name'', JString ''String''), (''friends'', JUndefined)])"
    unfolding example_defs by code_simp
  have h6: "id_field \<in> set user_fields" by (simp add: user_fields_def)
  have h7: "build_response_schema user_schema id_field ([] @ [field_base (qfield get_user)]) = Some ''id''"
    unfolding example_defs by code_simp
  have h8: "''id'' \<noteq> []" by simp
  show ?thesis using h1 h2 h3 h4 h5 h6 h7 h8 selection_in_example[OF h1 h2 h3 h4 h5 h6 h7 h8] by blast
qed

theorem self_field_undefined_witness:
  "field_base (qfield get_user) \<notin> set [] \<and> field_base (qfield get_user) \<notin> set builtin_scalars \<and>
   map_of user_schema (field_base (qfield get_user)) = Some (FieldsDef user_fields) \<and>
   distinct (map fname user_fields) \<and> friends_field \<in> set user_fields \<and>
   field_base friends_field = field_base (qfield get_user) \<and>
   build_mock_json user_schema (qfield get_user) [] = Some (JObject [(''id'', JNumber ''1''), (''name'', JString ''String''), (''friends'', JUndefined)]) \<and>
   build_response_schema user_schema friends_field ([] @ [field_base (qfield get_user)]) = None \<and>
   (\<exists>obj. JObject [(''id'', JNumber ''1''), (''name'', JString ''String''), (''friends'', JUndefined)] = wrap_list (field_is_list (qfield get_user)) (JObject obj)
      \<and> map_of obj (fname friends_field) = Some JUndefined)"
proof -
  have h1: "field_base (qfield get_user) \<notin> set []" by simp
  have h2: "field_base (qfield get_user) \<notin> set builtin_scalars"
    unfolding example_defs by code_simp
  have h3: "map_of user_schema (field_base (qfield get_user)) = Some (FieldsDef user_fields)"
    unfolding user_schema_def get_user_def by code_simp
  have h4: "distinct (map fname user_fields)"
    unfolding example_defs by code_simp
  have h5: "friends_field \<in> set user_fields" by (simp add: user_fields_def)
  have h6: "field_base friends_field = field_base (qfield get_user)"
    unfolding example_defs by code_simp
  have h7: "build_mock_json user_schema (qfield get_user) [] = Some (JObject [(''id'', JNumber ''1''), (''name'', JString ''String''), (''friends'', JUndefined)])"
    unfolding example_defs by code_simp
  show ?thesis using h1 h2 h3 h4 h5 h6 h7 self_field_undefined[OF h1 h2 h3 h4 h5 h6 h7] by blast
qed

theorem non_null_list_unexpanded_witness:
  "ftype tags_field = NonNull (ListOf (NonNull (Named ''String''))) \<and> gql_name_ok ''String'' \<and>
   gql_name_ok ''User'' \<and> ''String'' @ ''!'' \<notin> set [] \<and>
   add_sub_rows user_schema 0 tags_field [] = [field_row 0 tags_field] \<and>
   build_mock_json user_schema tags_field [] = Some (JArray [JObject []]) \<and>
   build_response_schema user_schema tags_field [] = Some []"
proof -
  have h1: "ftype tags_field = NonNull (ListOf (NonNull (Named ''String'')))" by (simp add: tags_field_def)
  have h2: "gql_name_ok ''String''" by code_simp
  have h3: "\<forall>m \<in> fst ` set user_schema. gql_name_ok m" unfolding user_schema_def by code_simp
  have h4: "''String'' @ ''!'' \<notin> set []" by simp
  have h5: "gql_name_ok ''User''" by code_simp
  show ?thesis using h1 h2 h4 h5 non_null_list_unexpanded[OF h1 h2 h3 h4, of 0] by blast
qed

end
